theory Spec2Isabelle
  imports Complex_Main
begin

section \<open>Data model\<close>

text \<open>
  The timestamps and angles of the samples are modelled as ideal reals: no rounding, no
  overflow. The functions that compute an angle from landmarks work on the type
  \<open>number\<close> of doubles with infinities and \<open>NaN\<close>, under a rounding that is a parameter.

  \<open>AngleData\<close> is the interface of angleAnalysisService.ts:
  \<^verbatim>\<open>{ timestamp: number; frameIndex: number; angle: number }\<close>.
  Where two interfaces of the source share a field name, the second one is renamed:
  \<open>frameTimestamp\<close> is \<open>FrameAnalysis.timestamp\<close>, \<open>metricsTakeoffFrame\<close> and
  \<open>metricsLandingFrame\<close> are \<open>JumpMetrics.takeoffFrame\<close> and \<open>JumpMetrics.landingFrame\<close>,
  and the coordinates \<open>x\<close>, \<open>y\<close>, \<open>z\<close> of a landmark are \<open>px\<close>, \<open>py\<close>, \<open>pz\<close>.
  A local variable whose name is a field name carries a prime.
\<close>

record AngleData =
  timestamp :: real
  frameIndex :: int
  angle :: real

text \<open>\<open>PoseLandmark\<close> (poseDetector.ts): \<open>z\<close> and \<open>visibility\<close> are optional.\<close>

record PoseLandmark =
  px :: real
  py :: real
  pz :: "real option"
  visibility :: "real option"

text \<open>\<open>FrameAnalysis\<close>, \<open>VideoAnalysis\<close> and \<open>ManualMarkers\<close> (analysisStore.ts).\<close>

record FrameAnalysis =
  frameTimestamp :: real
  landmarks :: "PoseLandmark list option"
  worldLandmarks :: "PoseLandmark list option"
  processed :: bool

record VideoAnalysis =
  frames :: "FrameAnalysis list"
  totalFrames :: nat
  processedFrames :: nat
  duration :: real
  fps :: real
  isComplete :: bool

record Markers =
  takeoffFrame :: "real option"
  takeoffTime :: "real option"
  landingFrame :: "real option"
  landingTime :: "real option"

record ManualMarkers =
  reference :: Markers
  user :: Markers

datatype VideoType = Reference | User

text \<open>\<open>AngleAnalysis\<close> (angleAnalysisService.ts) and \<open>JumpMetrics\<close> (jumpMetricsService.ts).\<close>

record AngleAnalysis =
  leftKneeFlexion :: "AngleData list"
  rightKneeFlexion :: "AngleData list"
  hipFlexion :: "AngleData list"
  headHipAlignment :: "AngleData list"
  weightBearingHipAngle :: "AngleData list"
  shoulderAngleToIce :: "AngleData list"
  shoulderRotation :: "AngleData list"
  shoulderCumulativeRotation :: "AngleData list"

record JumpMetrics =
  airTime :: "real option"
  metricsTakeoffFrame :: "nat option"
  metricsLandingFrame :: "nat option"
  rotations :: "real option"
  maxHeight :: "real option"

section \<open>Cumulative rotation tracker (angleAnalysisService.ts)\<close>

definition ROTATION_NOISE_THRESHOLD :: real where
  "ROTATION_NOISE_THRESHOLD = 20"

text \<open>
  Body of the first loop of \<open>calculateCumulativeRotation\<close>, at index \<open>i\<close>, on the
  accumulator \<open>netRotation\<close>. The two wrap-around tests are two statements in
  sequence, as in the source.
\<close>

definition pass1_body :: "AngleData list \<Rightarrow> nat \<Rightarrow> real \<Rightarrow> real" where
  "pass1_body shoulderRotationData i netRotation =
     (let currentAngle = angle (shoulderRotationData ! i);
          previousAngle = angle (shoulderRotationData ! (i - 1));
          angleDiff = currentAngle - previousAngle;
          angleDiff = (if angleDiff > 180 then angleDiff - 360 else angleDiff);
          angleDiff = (if angleDiff < - 180 then angleDiff + 360 else angleDiff)
      in netRotation + angleDiff)"

text \<open>The loop \<^verbatim>\<open>for (let i = 1; i < shoulderRotationData.length; i++)\<close> of pass 1.\<close>

definition pass1 :: "AngleData list \<Rightarrow> real" where
  "pass1 shoulderRotationData =
     fold (pass1_body shoulderRotationData) [1 ..< length shoulderRotationData] 0"

text \<open>
  Body of the second loop, on the state \<open>(cumulativeRotation, cumulativeData)\<close>;
  \<open>push\<close> appends at the end.
\<close>

definition pass2_body ::
  "AngleData list \<Rightarrow> bool \<Rightarrow> bool \<Rightarrow> nat \<Rightarrow> real \<times> AngleData list \<Rightarrow> real \<times> AngleData list"
where
  "pass2_body shoulderRotationData isCCW isCW i st =
     (let cumulativeRotation = fst st;
          cumulativeData = snd st;
          currentAngle = angle (shoulderRotationData ! i);
          previousAngle = angle (shoulderRotationData ! (i - 1));
          angleDiff = currentAngle - previousAngle;
          angleDiff =
            (if isCCW then
               (if angleDiff < - ROTATION_NOISE_THRESHOLD then angleDiff + 360 else angleDiff)
             else if isCW then
               (if angleDiff > ROTATION_NOISE_THRESHOLD then angleDiff - 360 else angleDiff)
             else angleDiff);
          cumulativeRotation = cumulativeRotation + angleDiff
      in (cumulativeRotation,
          cumulativeData @
            [\<lparr>timestamp = timestamp (shoulderRotationData ! i),
              frameIndex = frameIndex (shoulderRotationData ! i),
              angle = cumulativeRotation\<rparr>]))"

definition calculateCumulativeRotation :: "AngleData list \<Rightarrow> AngleData list" where
  "calculateCumulativeRotation shoulderRotationData =
     (if length shoulderRotationData < 2 then []
      else
        let netRotation = pass1 shoulderRotationData;
            isCCW = (netRotation > 0);
            isCW = (netRotation < 0);
            cumulativeData =
              [\<lparr>timestamp = timestamp (shoulderRotationData ! 0),
                frameIndex = frameIndex (shoulderRotationData ! 0),
                angle = 0\<rparr>]
        in snd (fold (pass2_body shoulderRotationData isCCW isCW)
                  [1 ..< length shoulderRotationData] (0, cumulativeData)))"

section \<open>Angle between vectors and the angles built on it (angleAnalysisService.ts)\<close>

text \<open>
  The numbers of this section are JavaScript doubles with their special values: a finite
  value, the two infinities and \<open>NaN\<close>. The rounding of a finite result is the parameter
  \<open>rnd\<close> of every operation (the exact arithmetic is \<open>rnd = (\<lambda>r. r)\<close>); a rounded result
  beyond \<open>MAX_VALUE\<close> (\<open>Number.MAX_VALUE\<close>, 1.7976931348623157e308) is infinite. The special
  cases are those of IEEE 754; the sign of a zero is not modelled, so a finite quotient by
  zero takes the sign of the dividend and a finite quotient by an infinity is 0.
  \<open>Math.sqrt\<close>, \<open>Math.acos\<close> and \<open>Math.atan2\<close> return the rounded value of the exact
  function.
\<close>

datatype number = Num real | PosInf | NegInf | NaN

definition MAX_VALUE :: real where
  "MAX_VALUE = 17976931348623157 * 10 ^ 292"

definition finite_result :: "(real \<Rightarrow> real) \<Rightarrow> real \<Rightarrow> number" where
  "finite_result rnd r =
     (if rnd r > MAX_VALUE then PosInf
      else if rnd r < - MAX_VALUE then NegInf
      else Num (rnd r))"

fun sign_of :: "number \<Rightarrow> int" where
  "sign_of (Num a) = (if a > 0 then 1 else if a < 0 then - 1 else 0)"
| "sign_of PosInf = 1"
| "sign_of NegInf = - 1"
| "sign_of NaN = 0"

definition signed_inf :: "int \<Rightarrow> number" where
  "signed_inf s = (if s > 0 then PosInf else NegInf)"

fun js_neg :: "number \<Rightarrow> number" where
  "js_neg (Num a) = Num (- a)"
| "js_neg PosInf = NegInf"
| "js_neg NegInf = PosInf"
| "js_neg NaN = NaN"

fun js_add :: "(real \<Rightarrow> real) \<Rightarrow> number \<Rightarrow> number \<Rightarrow> number" where
  "js_add rnd (Num a) (Num b) = finite_result rnd (a + b)"
| "js_add rnd NaN b = NaN"
| "js_add rnd a NaN = NaN"
| "js_add rnd PosInf NegInf = NaN"
| "js_add rnd NegInf PosInf = NaN"
| "js_add rnd PosInf b = PosInf"
| "js_add rnd a PosInf = PosInf"
| "js_add rnd NegInf b = NegInf"
| "js_add rnd a NegInf = NegInf"

definition js_sub :: "(real \<Rightarrow> real) \<Rightarrow> number \<Rightarrow> number \<Rightarrow> number" where
  "js_sub rnd a b = js_add rnd a (js_neg b)"

fun js_mul :: "(real \<Rightarrow> real) \<Rightarrow> number \<Rightarrow> number \<Rightarrow> number" where
  "js_mul rnd (Num a) (Num b) = finite_result rnd (a * b)"
| "js_mul rnd NaN b = NaN"
| "js_mul rnd a NaN = NaN"
| "js_mul rnd a b =
     (if sign_of a * sign_of b = 0 then NaN else signed_inf (sign_of a * sign_of b))"

fun js_div :: "(real \<Rightarrow> real) \<Rightarrow> number \<Rightarrow> number \<Rightarrow> number" where
  "js_div rnd NaN b = NaN"
| "js_div rnd a NaN = NaN"
| "js_div rnd (Num a) (Num b) =
     (if b = 0 then (if a = 0 then NaN else signed_inf (sign_of (Num a)))
      else finite_result rnd (a / b))"
| "js_div rnd (Num a) b = Num 0"
| "js_div rnd a (Num b) = signed_inf (sign_of a * (if b < 0 then - 1 else 1))"
| "js_div rnd a b = NaN"

fun js_sqrt :: "(real \<Rightarrow> real) \<Rightarrow> number \<Rightarrow> number" where
  "js_sqrt rnd (Num a) = (if a < 0 then NaN else Num (rnd (sqrt a)))"
| "js_sqrt rnd PosInf = PosInf"
| "js_sqrt rnd NegInf = NaN"
| "js_sqrt rnd NaN = NaN"

text \<open>\<open>Math.min\<close> and \<open>Math.max\<close> of two numbers: \<open>NaN\<close> when either is.\<close>

fun js_min :: "number \<Rightarrow> number \<Rightarrow> number" where
  "js_min NaN b = NaN"
| "js_min a NaN = NaN"
| "js_min NegInf b = NegInf"
| "js_min a NegInf = NegInf"
| "js_min PosInf b = b"
| "js_min a PosInf = a"
| "js_min (Num a) (Num b) = Num (min a b)"

fun js_max :: "number \<Rightarrow> number \<Rightarrow> number" where
  "js_max NaN b = NaN"
| "js_max a NaN = NaN"
| "js_max PosInf b = PosInf"
| "js_max a PosInf = PosInf"
| "js_max NegInf b = b"
| "js_max a NegInf = a"
| "js_max (Num a) (Num b) = Num (max a b)"

text \<open>\<open>a < b\<close> on numbers: false when either is \<open>NaN\<close>.\<close>

fun js_less :: "number \<Rightarrow> number \<Rightarrow> bool" where
  "js_less NaN b = False"
| "js_less a NaN = False"
| "js_less (Num a) (Num b) = (a < b)"
| "js_less a NegInf = False"
| "js_less PosInf b = False"
| "js_less a b = True"

fun js_acos :: "(real \<Rightarrow> real) \<Rightarrow> number \<Rightarrow> number" where
  "js_acos rnd (Num c) = (if - 1 \<le> c \<and> c \<le> 1 then Num (rnd (arccos c)) else NaN)"
| "js_acos rnd a = NaN"

text \<open>The angle of the point \<open>(x, y)\<close>, in \<open>(-pi, pi]\<close>, and \<open>Math.atan2\<close>.\<close>

definition atan2 :: "real \<Rightarrow> real \<Rightarrow> real" where
  "atan2 y x =
     (if x > 0 then arctan (y / x)
      else if x < 0 then (if y \<ge> 0 then arctan (y / x) + pi else arctan (y / x) - pi)
      else if y > 0 then pi / 2
      else if y < 0 then - (pi / 2)
      else 0)"

fun js_atan2 :: "(real \<Rightarrow> real) \<Rightarrow> number \<Rightarrow> number \<Rightarrow> number" where
  "js_atan2 rnd NaN x = NaN"
| "js_atan2 rnd y NaN = NaN"
| "js_atan2 rnd (Num y) (Num x) = Num (rnd (atan2 y x))"
| "js_atan2 rnd (Num y) PosInf = Num 0"
| "js_atan2 rnd (Num y) NegInf = Num (rnd (if y \<ge> 0 then pi else - pi))"
| "js_atan2 rnd PosInf (Num x) = Num (rnd (pi / 2))"
| "js_atan2 rnd NegInf (Num x) = Num (rnd (- (pi / 2)))"
| "js_atan2 rnd PosInf PosInf = Num (rnd (pi / 4))"
| "js_atan2 rnd PosInf NegInf = Num (rnd (3 * pi / 4))"
| "js_atan2 rnd NegInf PosInf = Num (rnd (- (pi / 4)))"
| "js_atan2 rnd NegInf NegInf = Num (rnd (- (3 * pi / 4)))"

text \<open>\<open>Math.PI\<close>: the double nearest to pi.\<close>

definition MATH_PI :: "(real \<Rightarrow> real) \<Rightarrow> number" where
  "MATH_PI rnd = Num (rnd pi)"

record Vector3 =
  vx :: number
  vy :: number
  vz :: number

text \<open>
  The dot product and the magnitude as \<open>calculateAngleBetweenVectors\<close> computes them
  (\<open>a + b + c\<close> is \<open>(a + b) + c\<close>).
\<close>

definition dot_product :: "(real \<Rightarrow> real) \<Rightarrow> Vector3 \<Rightarrow> Vector3 \<Rightarrow> number" where
  "dot_product rnd vector1 vector2 =
     js_add rnd
       (js_add rnd (js_mul rnd (vx vector1) (vx vector2)) (js_mul rnd (vy vector1) (vy vector2)))
       (js_mul rnd (vz vector1) (vz vector2))"

definition magnitude :: "(real \<Rightarrow> real) \<Rightarrow> Vector3 \<Rightarrow> number" where
  "magnitude rnd v =
     js_sqrt rnd
       (js_add rnd
          (js_add rnd (js_mul rnd (vx v) (vx v)) (js_mul rnd (vy v) (vy v)))
          (js_mul rnd (vz v) (vz v)))"

definition calculateAngleBetweenVectors ::
  "(real \<Rightarrow> real) \<Rightarrow> Vector3 \<Rightarrow> Vector3 \<Rightarrow> number"
where
  "calculateAngleBetweenVectors rnd vector1 vector2 =
     (let dot = dot_product rnd vector1 vector2;
          mag1 = magnitude rnd vector1;
          mag2 = magnitude rnd vector2
      in if mag1 = Num 0 \<or> mag2 = Num 0 then Num 0
         else
           let cosAngle = js_div rnd dot (js_mul rnd mag1 mag2);
               clampedCos = js_max (Num (- 1)) (js_min (Num 1) cosAngle);
               angleRadians = js_acos rnd clampedCos
           in js_div rnd (js_mul rnd angleRadians (Num 180)) (MATH_PI rnd))"

text \<open>MediaPipe landmark indices.\<close>

definition NOSE :: nat where "NOSE = 0"
definition LEFT_HIP :: nat where "LEFT_HIP = 23"
definition RIGHT_HIP :: nat where "RIGHT_HIP = 24"
definition LEFT_KNEE :: nat where "LEFT_KNEE = 25"
definition RIGHT_KNEE :: nat where "RIGHT_KNEE = 26"
definition LEFT_ANKLE :: nat where "LEFT_ANKLE = 27"
definition RIGHT_ANKLE :: nat where "RIGHT_ANKLE = 28"
definition LEFT_SHOULDER :: nat where "LEFT_SHOULDER = 11"
definition RIGHT_SHOULDER :: nat where "RIGHT_SHOULDER = 12"

text \<open>
  \<open>landmarks[i]\<close>: \<open>undefined\<close> (here \<open>None\<close>) beyond the end of the array.
  \<open>z_or_0 p\<close> is \<open>(p.z || 0)\<close>. The coordinates of a landmark are finite numbers.
\<close>

definition landmark_at :: "PoseLandmark list \<Rightarrow> nat \<Rightarrow> PoseLandmark option" where
  "landmark_at ls i = (if i < length ls then Some (ls ! i) else None)"

definition z_or_0 :: "PoseLandmark \<Rightarrow> real" where
  "z_or_0 p = (case pz p of None \<Rightarrow> 0 | Some v \<Rightarrow> v)"

text \<open>The vector \<open>{x: a.x - b.x, y: a.y - b.y, z: (a.z || 0) - (b.z || 0)}\<close>.\<close>

definition vector_from_to :: "(real \<Rightarrow> real) \<Rightarrow> PoseLandmark \<Rightarrow> PoseLandmark \<Rightarrow> Vector3" where
  "vector_from_to rnd b a =
     \<lparr>vx = js_sub rnd (Num (px a)) (Num (px b)),
      vy = js_sub rnd (Num (py a)) (Num (py b)),
      vz = js_sub rnd (Num (z_or_0 a)) (Num (z_or_0 b))\<rparr>"

text \<open>\<open>Math.max(0, 180 - angle)\<close>.\<close>

definition kneeFlexion_of :: "(real \<Rightarrow> real) \<Rightarrow> number \<Rightarrow> number" where
  "kneeFlexion_of rnd a = (let kneeFlexion = js_sub rnd (Num 180) a in js_max (Num 0) kneeFlexion)"

definition calculateLeftKneeFlexion :: "(real \<Rightarrow> real) \<Rightarrow> PoseLandmark list \<Rightarrow> number option" where
  "calculateLeftKneeFlexion rnd ls =
     (case (landmark_at ls LEFT_HIP, landmark_at ls LEFT_KNEE, landmark_at ls LEFT_ANKLE) of
        (Some hip, Some knee, Some ankle) \<Rightarrow>
          (let thighVector = vector_from_to rnd knee hip;
               shinVector = vector_from_to rnd knee ankle
           in Some (kneeFlexion_of rnd (calculateAngleBetweenVectors rnd thighVector shinVector)))
      | _ \<Rightarrow> None)"

definition calculateRightKneeFlexion :: "(real \<Rightarrow> real) \<Rightarrow> PoseLandmark list \<Rightarrow> number option" where
  "calculateRightKneeFlexion rnd ls =
     (case (landmark_at ls RIGHT_HIP, landmark_at ls RIGHT_KNEE, landmark_at ls RIGHT_ANKLE) of
        (Some hip, Some knee, Some ankle) \<Rightarrow>
          (let thighVector = vector_from_to rnd knee hip;
               shinVector = vector_from_to rnd knee ankle
           in Some (kneeFlexion_of rnd (calculateAngleBetweenVectors rnd thighVector shinVector)))
      | _ \<Rightarrow> None)"

definition calculateHipFlexion :: "(real \<Rightarrow> real) \<Rightarrow> PoseLandmark list \<Rightarrow> number option" where
  "calculateHipFlexion rnd ls =
     (case (landmark_at ls LEFT_SHOULDER, landmark_at ls LEFT_HIP, landmark_at ls LEFT_KNEE) of
        (Some shoulder, Some hip, Some knee) \<Rightarrow>
          (let torsoVector = vector_from_to rnd hip shoulder;
               thighVector = vector_from_to rnd hip knee
           in Some (calculateAngleBetweenVectors rnd torsoVector thighVector))
      | _ \<Rightarrow> None)"

definition calculateHeadHipAlignment :: "(real \<Rightarrow> real) \<Rightarrow> PoseLandmark list \<Rightarrow> number option" where
  "calculateHeadHipAlignment rnd ls =
     (case (landmark_at ls NOSE, landmark_at ls LEFT_HIP, landmark_at ls RIGHT_HIP) of
        (Some nose, Some leftHip, Some rightHip) \<Rightarrow>
          (let hipCenter =
                 \<lparr>vx = js_div rnd (js_add rnd (Num (px leftHip)) (Num (px rightHip))) (Num 2),
                  vy = js_div rnd (js_add rnd (Num (py leftHip)) (Num (py rightHip))) (Num 2),
                  vz = js_div rnd (js_add rnd (Num (z_or_0 leftHip)) (Num (z_or_0 rightHip)))
                         (Num 2)\<rparr>;
               headHipVector =
                 \<lparr>vx = js_sub rnd (Num (px nose)) (vx hipCenter),
                  vy = js_sub rnd (Num (py nose)) (vy hipCenter),
                  vz = js_sub rnd (Num (z_or_0 nose)) (vz hipCenter)\<rparr>;
               verticalVector = \<lparr>vx = Num 0, vy = Num (- 1), vz = Num 0\<rparr>
           in Some (calculateAngleBetweenVectors rnd headHipVector verticalVector))
      | _ \<Rightarrow> None)"

definition calculateWeightBearingHipAngle ::
  "(real \<Rightarrow> real) \<Rightarrow> PoseLandmark list \<Rightarrow> number option"
where
  "calculateWeightBearingHipAngle rnd ls =
     (case (landmark_at ls LEFT_HIP, landmark_at ls RIGHT_HIP) of
        (Some leftHip, Some rightHip) \<Rightarrow>
          (let hipVector = vector_from_to rnd leftHip rightHip;
               horizontalVector = \<lparr>vx = Num 1, vy = Num 0, vz = Num 0\<rparr>
           in Some (calculateAngleBetweenVectors rnd hipVector horizontalVector))
      | _ \<Rightarrow> None)"

definition calculateShoulderAngleToIce ::
  "(real \<Rightarrow> real) \<Rightarrow> PoseLandmark list \<Rightarrow> number option"
where
  "calculateShoulderAngleToIce rnd ls =
     (case (landmark_at ls LEFT_SHOULDER, landmark_at ls RIGHT_SHOULDER) of
        (Some leftShoulder, Some rightShoulder) \<Rightarrow>
          (let shoulderVector = vector_from_to rnd leftShoulder rightShoulder;
               horizontalVector = \<lparr>vx = Num 1, vy = Num 0, vz = Num 0\<rparr>
           in Some (calculateAngleBetweenVectors rnd shoulderVector horizontalVector))
      | _ \<Rightarrow> None)"

text \<open>
  \<open>calculateShoulderRotation\<close>: the angle of the shoulder line in the X-Z plane, in
  degrees, with 360 added when it is negative.
\<close>

definition calculateShoulderRotation ::
  "(real \<Rightarrow> real) \<Rightarrow> PoseLandmark list \<Rightarrow> number option"
where
  "calculateShoulderRotation rnd ls =
     (case (landmark_at ls LEFT_SHOULDER, landmark_at ls RIGHT_SHOULDER) of
        (Some leftShoulder, Some rightShoulder) \<Rightarrow>
          (let dx = js_sub rnd (Num (px rightShoulder)) (Num (px leftShoulder));
               dz = js_sub rnd (Num (z_or_0 rightShoulder)) (Num (z_or_0 leftShoulder));
               angleRadians = js_atan2 rnd dz dx;
               angleDegrees = js_mul rnd angleRadians (js_div rnd (Num 180) (MATH_PI rnd));
               angleDegrees =
                 (if js_less angleDegrees (Num 0) then js_add rnd angleDegrees (Num 360)
                  else angleDegrees)
           in Some angleDegrees)
      | _ \<Rightarrow> None)"

section \<open>Gap filling (angleAnalysisService.ts)\<close>

text \<open>
  The loop of \<open>interpolateAngleValue\<close> over the indices still to visit.
  \<open>beforeData\<close> and \<open>afterData\<close> hold references to elements of \<open>angleData\<close>; they are
  modelled by the element's index, so that \<open>beforeData !== afterData\<close> is the
  inequality of the indices. Returning in the second equation is the \<open>break\<close>.
\<close>

fun interpolate_loop ::
  "AngleData list \<Rightarrow> real \<Rightarrow> nat list \<Rightarrow> nat option \<times> nat option \<Rightarrow> nat option \<times> nat option"
where
  "interpolate_loop angleData timestamp' [] st = st"
| "interpolate_loop angleData timestamp' (i # rest) (beforeData, afterData) =
     (let beforeData =
            (if timestamp (angleData ! i) \<le> timestamp' then Some i else beforeData)
      in if timestamp (angleData ! i) \<ge> timestamp' \<and> afterData = None
         then (beforeData, Some i)
         else interpolate_loop angleData timestamp' rest (beforeData, afterData))"

text \<open>The last line is \<open>beforeData?.angle || null\<close>: a zero angle is falsy.\<close>

definition interpolateAngleValue :: "AngleData list \<Rightarrow> real \<Rightarrow> real option" where
  "interpolateAngleValue angleData timestamp' =
     (if length angleData = 0 then None
      else if length angleData = 1 then Some (angle (angleData ! 0))
      else
        case interpolate_loop angleData timestamp' [0 ..< length angleData] (None, None) of
          (None, Some a) \<Rightarrow> Some (angle (angleData ! a))
        | (Some b, None) \<Rightarrow> Some (angle (angleData ! b))
        | (Some b, Some a) \<Rightarrow>
            if b \<noteq> a then
              (let timeDiff = timestamp (angleData ! a) - timestamp (angleData ! b);
                   angleProgress = (timestamp' - timestamp (angleData ! b)) / timeDiff
               in Some (angle (angleData ! b)
                        + (angle (angleData ! a) - angle (angleData ! b)) * angleProgress))
            else if angle (angleData ! b) = 0 then None
            else Some (angle (angleData ! b))
        | (None, None) \<Rightarrow> None)"

text \<open>
  Body of the loop of \<open>fillAngleDataGaps\<close> for the frame at position \<open>frameIndex'\<close> of
  \<open>allFrames\<close> (\<open>allFrames.indexOf(frame)\<close>: the frames of the array are distinct objects).
\<close>

definition fill_body ::
  "AngleData list \<Rightarrow> nat \<times> FrameAnalysis \<Rightarrow> AngleData list \<Rightarrow> AngleData list"
where
  "fill_body angleData p completeData =
     (let frameIndex' = fst p;
          timestamp' = frameTimestamp (snd p);
          exactMatch = find (\<lambda>data. \<bar>timestamp data - timestamp'\<bar> < 1 / 100) angleData
      in case exactMatch of
           Some m \<Rightarrow> completeData @ [m]
         | None \<Rightarrow>
             (case interpolateAngleValue angleData timestamp' of
                Some interpolatedAngle \<Rightarrow>
                  completeData @
                    [\<lparr>timestamp = timestamp', frameIndex = int frameIndex',
                      angle = interpolatedAngle\<rparr>]
              | None \<Rightarrow> completeData))"

definition fillAngleDataGaps :: "AngleData list \<Rightarrow> FrameAnalysis list \<Rightarrow> AngleData list" where
  "fillAngleDataGaps angleData allFrames =
     (if length angleData = 0 then angleData
      else
        let completeData =
              fold (fill_body angleData) (zip [0 ..< length allFrames] allFrames) []
        in if length completeData > length angleData then completeData else angleData)"

text \<open>
  One channel of \<open>analyzeAngles\<close>: the frames that are processed and have world landmarks,
  each with its position in \<open>analysis.frames\<close> (\<open>analysis.frames.indexOf(frame)\<close>), the raw
  series of the channel's \<open>calculate\<close> function over them (a \<open>null\<close> angle adds no sample),
  and the gap filling. \<open>analyzeAngles\<close> does this for seven calculate functions.
\<close>

definition valid_frames :: "VideoAnalysis \<Rightarrow> (nat \<times> FrameAnalysis) list" where
  "valid_frames analysis =
     filter (\<lambda>p. processed (snd p) \<and> worldLandmarks (snd p) \<noteq> None)
       (zip [0 ..< length (frames analysis)] (frames analysis))"

definition raw_body ::
  "(PoseLandmark list \<Rightarrow> real option) \<Rightarrow> nat \<times> FrameAnalysis \<Rightarrow> AngleData list \<Rightarrow> AngleData list"
where
  "raw_body calculate p series =
     (case worldLandmarks (snd p) of
        None \<Rightarrow> series
      | Some ls \<Rightarrow>
          (case calculate ls of
             None \<Rightarrow> series
           | Some a \<Rightarrow>
               series @
                 [\<lparr>timestamp = frameTimestamp (snd p), frameIndex = int (fst p), angle = a\<rparr>]))"

definition raw_series ::
  "(PoseLandmark list \<Rightarrow> real option) \<Rightarrow> VideoAnalysis \<Rightarrow> AngleData list"
where
  "raw_series calculate analysis = fold (raw_body calculate) (valid_frames analysis) []"

definition analyzeChannel ::
  "(PoseLandmark list \<Rightarrow> real option) \<Rightarrow> VideoAnalysis \<Rightarrow> AngleData list"
where
  "analyzeChannel calculate analysis =
     fillAngleDataGaps (raw_series calculate analysis) (map snd (valid_frames analysis))"

section \<open>Jump metrics (jumpMetricsService.ts)\<close>

definition ROTATION_PADDING_FRAMES :: int where
  "ROTATION_PADDING_FRAMES = 2"

text \<open>
  \<open>extractRotationFromAngleAnalysis\<close>: \<open>undefined\<close> and \<open>null\<close> are \<open>None\<close>;
  \<open>.slice().reverse().find\<close> is \<open>find\<close> on the reversed list.
\<close>

definition extractRotationFromAngleAnalysis ::
  "AngleAnalysis option \<Rightarrow> int \<Rightarrow> int \<Rightarrow> real option"
where
  "extractRotationFromAngleAnalysis angleAnalysis takeoffFrame' landingFrame' =
     (case angleAnalysis of
        None \<Rightarrow> None
      | Some aa \<Rightarrow>
          if length (shoulderCumulativeRotation aa) = 0 then None
          else
            let rotationStartFrame = max 0 (takeoffFrame' - ROTATION_PADDING_FRAMES);
                rotationEndFrame = landingFrame' + ROTATION_PADDING_FRAMES;
                startRotationData =
                  find (\<lambda>data. frameIndex data \<ge> rotationStartFrame)
                    (shoulderCumulativeRotation aa);
                endRotationData =
                  find (\<lambda>data. frameIndex data \<le> rotationEndFrame)
                    (rev (shoulderCumulativeRotation aa))
            in case (startRotationData, endRotationData) of
                 (Some s, Some e) \<Rightarrow>
                   (let totalRotationDegrees = \<bar>angle e - angle s\<bar>;
                        rotations = totalRotationDegrees / 360
                    in Some rotations)
               | _ \<Rightarrow> None)"

text \<open>\<open>findClosestFrameByTime\<close>: the loop body on \<open>(closestIndex, minTimeDiff)\<close>.\<close>

definition closest_body ::
  "FrameAnalysis list \<Rightarrow> real \<Rightarrow> nat \<Rightarrow> nat \<times> real \<Rightarrow> nat \<times> real"
where
  "closest_body fs targetTime i st =
     (let closestIndex = fst st;
          minTimeDiff = snd st;
          timeDiff = \<bar>frameTimestamp (fs ! i) - targetTime\<bar>
      in if timeDiff < minTimeDiff then (i, timeDiff) else (closestIndex, minTimeDiff))"

definition findClosestFrameByTime :: "FrameAnalysis list \<Rightarrow> real \<Rightarrow> nat option" where
  "findClosestFrameByTime fs targetTime =
     (if length fs = 0 then None
      else
        Some (fst (fold (closest_body fs targetTime) [1 ..< length fs]
                     (0, \<bar>frameTimestamp (fs ! 0) - targetTime\<bar>))))"

text \<open>\<open>calculateJumpHeight\<close>: \<open>null\<close> is \<open>None\<close>.\<close>

definition calculateJumpHeight :: "real \<Rightarrow> real option" where
  "calculateJumpHeight airTime' =
     (if airTime' \<le> 0 then None
      else
        let gravity = 981 / 100;
            height = (gravity * airTime' * airTime') / 8
        in Some height)"

text \<open>
  \<open>computeJumpMetrics\<close>: each \<open>throw new Error\<close> is a value of \<open>metrics_error\<close>, in
  the order of the source; \<open>console.log\<close> has no effect on the result.
  \<open>markers_for manualMarkers videoType\<close> is \<open>manualMarkers[videoType]\<close>.
\<close>

definition markers_for :: "ManualMarkers \<Rightarrow> VideoType \<Rightarrow> Markers" where
  "markers_for manualMarkers videoType =
     (case videoType of Reference \<Rightarrow> reference manualMarkers | User \<Rightarrow> user manualMarkers)"

datatype metrics_error =
    AnalysisNotComplete
  | MarkersRequired
  | FramesNotSpecified
  | FramesNotFound
  | InvalidFrameSequence nat nat

definition computeJumpMetrics ::
  "VideoAnalysis option \<Rightarrow> ManualMarkers option \<Rightarrow> VideoType \<Rightarrow> AngleAnalysis option
     \<Rightarrow> metrics_error + JumpMetrics"
where
  "computeJumpMetrics analysis manualMarkers videoType angleAnalysis =
     (case analysis of
        None \<Rightarrow> Inl AnalysisNotComplete
      | Some an \<Rightarrow>
          if \<not> isComplete an then Inl AnalysisNotComplete
          else
            case manualMarkers of
              None \<Rightarrow> Inl MarkersRequired
            | Some mm \<Rightarrow>
                (let markers = markers_for mm videoType
                 in case (takeoffFrame markers, landingFrame markers) of
                      (Some rawTakeoffFrame, Some rawLandingFrame) \<Rightarrow>
                        (let sampleVideoFps = 30;
                             takeoffTime' = rawTakeoffFrame / sampleVideoFps;
                             landingTime' = rawLandingFrame / sampleVideoFps
                         in case (findClosestFrameByTime (frames an) takeoffTime',
                                  findClosestFrameByTime (frames an) landingTime') of
                              (Some takeoffFrame', Some landingFrame') \<Rightarrow>
                                if takeoffFrame' \<ge> landingFrame'
                                then Inl (InvalidFrameSequence takeoffFrame' landingFrame')
                                else
                                  (let airTime' = frameTimestamp (frames an ! landingFrame')
                                                  - frameTimestamp (frames an ! takeoffFrame');
                                       rotations' = extractRotationFromAngleAnalysis angleAnalysis
                                                      (int takeoffFrame') (int landingFrame');
                                       maxHeight' = calculateJumpHeight airTime'
                                   in Inr \<lparr>airTime = Some airTime',
                                           metricsTakeoffFrame = Some takeoffFrame',
                                           metricsLandingFrame = Some landingFrame',
                                           rotations = rotations',
                                           maxHeight = maxHeight'\<rparr>)
                            | _ \<Rightarrow> Inl FramesNotFound)
                    | _ \<Rightarrow> Inl FramesNotSpecified))"

section \<open>The two passes in closed form, and the reference algorithm\<close>

text \<open>
  \<open>wrappedDelta\<close> is the wrap-around rule of pass 1 and \<open>lockedDelta\<close> the correction of
  pass 2 on one raw difference; \<open>lockedSum d isCCW isCW k\<close> is the sum of the corrected
  differences up to index \<open>k\<close>, and \<open>stepSample\<close> the sample pass 2 pushes at index \<open>k\<close>.
\<close>


definition wrappedDelta :: "real \<Rightarrow> real" where
  "wrappedDelta delta =
     (if delta > 180 then delta - 360 else if delta < - 180 then delta + 360 else delta)"

definition lockedDelta :: "bool \<Rightarrow> bool \<Rightarrow> real \<Rightarrow> real" where
  "lockedDelta isCCW isCW delta =
     (if isCCW then (if delta < - 20 then delta + 360 else delta)
      else if isCW then (if delta > 20 then delta - 360 else delta)
      else delta)"

definition lockedSum :: "AngleData list \<Rightarrow> bool \<Rightarrow> bool \<Rightarrow> nat \<Rightarrow> real" where
  "lockedSum d isCCW isCW k =
     sum_list (map (\<lambda>i. lockedDelta isCCW isCW (angle (d ! i) - angle (d ! (i - 1))))
                 [1 ..< Suc k])"

definition stepSample :: "AngleData list \<Rightarrow> bool \<Rightarrow> bool \<Rightarrow> nat \<Rightarrow> AngleData" where
  "stepSample d isCCW isCW k =
     \<lparr>timestamp = timestamp (d ! k), frameIndex = frameIndex (d ! k),
      angle = lockedSum d isCCW isCW k\<rparr>"

text \<open>
  The reference algorithm, on the list of angles: the differences of consecutive samples,
  their wrapped sum and the direction it gives, the correction of one difference in that
  direction, and the running sum that starts with 0 at the first sample.
\<close>

definition consecutive_deltas :: "real list \<Rightarrow> real list" where
  "consecutive_deltas xs = map (\<lambda>(previous, current). current - previous) (zip xs (tl xs))"

datatype direction = CCW | CW | Undetermined

definition reference_direction :: "real \<Rightarrow> direction" where
  "reference_direction net = (if net > 0 then CCW else if net < 0 then CW else Undetermined)"

definition reference_net :: "real list \<Rightarrow> real" where
  "reference_net xs = sum_list (map wrappedDelta (consecutive_deltas xs))"

fun reference_correct :: "direction \<Rightarrow> real \<Rightarrow> real" where
  "reference_correct CCW delta = (if delta < - 20 then delta + 360 else delta)"
| "reference_correct CW delta = (if delta > 20 then delta - 360 else delta)"
| "reference_correct Undetermined delta = delta"

fun running_sum :: "real \<Rightarrow> real list \<Rightarrow> real list" where
  "running_sum acc [] = []"
| "running_sum acc (delta # deltas) = (acc + delta) # running_sum (acc + delta) deltas"

definition reference_cumulative :: "real list \<Rightarrow> real list" where
  "reference_cumulative xs =
     0 # running_sum 0
           (map (reference_correct (reference_direction (reference_net xs)))
              (consecutive_deltas xs))"

text \<open>Concrete inputs: a series sampled at 30 frames per second, frame \<open>i\<close> at index \<open>i\<close>.\<close>

definition sampled_series :: "real list \<Rightarrow> AngleData list" where
  "sampled_series xs =
     map (\<lambda>i. \<lparr>timestamp = real i / 30, frameIndex = int i, angle = xs ! i\<rparr>) [0 ..< length xs]"

text \<open>
  The angle analysis that holds a shoulder rotation series and its cumulative rotation,
  as \<open>analyzeAngles\<close> stores them (the other channels play no part in the rotation count).
\<close>

definition rotation_analysis :: "AngleData list \<Rightarrow> AngleAnalysis" where
  "rotation_analysis d =
     \<lparr>leftKneeFlexion = [], rightKneeFlexion = [], hipFlexion = [], headHipAlignment = [],
      weightBearingHipAngle = [], shoulderAngleToIce = [], shoulderRotation = d,
      shoulderCumulativeRotation = calculateCumulativeRotation d\<rparr>"

text \<open>Thirty samples of a uniform rotation, 36 degrees a step: angles \<open>36 * i mod 360\<close>.\<close>

definition uniform_ccw :: "AngleData list" where
  "uniform_ccw = sampled_series (map (\<lambda>i. real ((36 * i) mod 360)) [0 ..< 30])"

text \<open>
  The rotation count over a whole series: takeoff at the first frame, landing at the last.
  The two encodings of a circular signal, and the re-encoding of a value of \<open>[0, 360)\<close>
  in \<open>(-180, 180]\<close>.
\<close>

definition whole_series_rotations :: "real list \<Rightarrow> real option" where
  "whole_series_rotations xs =
     extractRotationFromAngleAnalysis (Some (rotation_analysis (sampled_series xs)))
       0 (int (length xs) - 1)"

definition unsigned_encoded :: "real list \<Rightarrow> bool" where
  "unsigned_encoded xs = list_all (\<lambda>a. 0 \<le> a \<and> a < 360) xs"

definition signed_encoded :: "real list \<Rightarrow> bool" where
  "signed_encoded xs = list_all (\<lambda>a. - 180 < a \<and> a \<le> 180) xs"

definition to_signed :: "real \<Rightarrow> real" where
  "to_signed a = (if a > 180 then a - 360 else a)"

text \<open>
  A complete analysis of ten frames at 10 frames per second, without landmarks, and
  markers (at 30 frames per second) set to the same takeoff and landing for both videos.
\<close>

definition frame_at :: "real \<Rightarrow> FrameAnalysis" where
  "frame_at t = \<lparr>frameTimestamp = t, landmarks = None, worldLandmarks = None, processed = True\<rparr>"

definition ten_frames :: VideoAnalysis where
  "ten_frames =
     \<lparr>frames = map (\<lambda>i. frame_at (real i / 10)) [0 ..< 10], totalFrames = 10,
      processedFrames = 10, duration = 1, fps = 10, isComplete = True\<rparr>"

definition marked :: "real \<Rightarrow> real \<Rightarrow> ManualMarkers" where
  "marked t l =
     \<lparr>reference = \<lparr>takeoffFrame = Some t, takeoffTime = None,
                    landingFrame = Some l, landingTime = None\<rparr>,
      user = \<lparr>takeoffFrame = Some t, takeoffTime = None,
               landingFrame = Some l, landingTime = None\<rparr>\<rparr>"

text \<open>
  A cumulative rotation series with samples at the frames 1, 3, 5 and 9 only, and the
  angle analysis that holds it.
\<close>

definition gapped_series :: "AngleData list" where
  "gapped_series =
     [\<lparr>timestamp = 1 / 10, frameIndex = 1, angle = 0\<rparr>,
      \<lparr>timestamp = 3 / 10, frameIndex = 3, angle = 100\<rparr>,
      \<lparr>timestamp = 5 / 10, frameIndex = 5, angle = 300\<rparr>,
      \<lparr>timestamp = 9 / 10, frameIndex = 9, angle = 700\<rparr>]"

definition gapped_analysis :: AngleAnalysis where
  "gapped_analysis =
     \<lparr>leftKneeFlexion = [], rightKneeFlexion = [], hipFlexion = [], headHipAlignment = [],
      weightBearingHipAngle = [], shoulderAngleToIce = [], shoulderRotation = [],
      shoulderCumulativeRotation = gapped_series\<rparr>"

text \<open>
  The exact arithmetic, and the hip flexion channel as \<open>analyzeAngles\<close> runs it, in exact
  arithmetic: \<open>as_angle\<close> is the angle a sample stores. A sample's angle is a real in this
  model, so the channel stands for the source on landmarks whose hip flexion is a finite
  number; \<open>null\<close> adds no sample.
\<close>

definition exact :: "real \<Rightarrow> real" where
  "exact r = r"

definition as_angle :: "number option \<Rightarrow> real option" where
  "as_angle r = (case r of Some (Num a) \<Rightarrow> Some a | _ \<Rightarrow> None)"

definition hipFlexion_channel :: "PoseLandmark list \<Rightarrow> real option" where
  "hipFlexion_channel ls = as_angle (calculateHipFlexion exact ls)"

text \<open>
  The sample \<open>fillAngleDataGaps\<close> pushes for the frame at position \<open>k\<close>: the first raw
  sample within 10 ms of the frame, or else the interpolated one.
\<close>

definition within_tolerance :: "real \<Rightarrow> AngleData \<Rightarrow> bool" where
  "within_tolerance t sample = (\<bar>timestamp sample - t\<bar> < 1 / 100)"

definition filled_sample :: "AngleData list \<Rightarrow> nat \<Rightarrow> FrameAnalysis \<Rightarrow> AngleData" where
  "filled_sample angleData k frame =
     (case find (within_tolerance (frameTimestamp frame)) angleData of
        Some m \<Rightarrow> m
      | None \<Rightarrow>
          \<lparr>timestamp = frameTimestamp frame, frameIndex = int k,
           angle = the (interpolateAngleValue angleData (frameTimestamp frame))\<rparr>)"

text \<open>
  World landmarks of 33 points with the left shoulder above the left hip and the left knee
  in front of it (hip flexion 90) or below it (180); an analysis of three frames whose
  middle frame has an empty landmark array, and one of a single such frame.
\<close>

definition point :: "real \<Rightarrow> real \<Rightarrow> PoseLandmark" where
  "point a b = \<lparr>px = a, py = b, pz = None, visibility = None\<rparr>"

definition upright :: "PoseLandmark list" where
  "upright = (replicate 33 (point 0 0))[11 := point 0 (- 1), 25 := point 1 0]"

definition folded :: "PoseLandmark list" where
  "folded = (replicate 33 (point 0 0))[11 := point 0 (- 1), 25 := point 0 1]"

definition world_frame :: "real \<Rightarrow> PoseLandmark list \<Rightarrow> FrameAnalysis" where
  "world_frame t ls = \<lparr>frameTimestamp = t, landmarks = Some ls, worldLandmarks = Some ls, processed = True\<rparr>"

definition three_frames :: VideoAnalysis where
  "three_frames =
     \<lparr>frames = [world_frame 0 upright, world_frame (1 / 10) [], world_frame (2 / 10) folded],
      totalFrames = 3, processedFrames = 3, duration = 3 / 10, fps = 10, isComplete = True\<rparr>"

definition one_empty_frame :: VideoAnalysis where
  "one_empty_frame =
     \<lparr>frames = [world_frame 0 []],
      totalFrames = 1, processedFrames = 1, duration = 1 / 10, fps = 10, isComplete = True\<rparr>"

text \<open>The count of processed frames with world landmarks in the full timeline.\<close>

definition valid_frame_count :: "VideoAnalysis \<Rightarrow> nat" where
  "valid_frame_count analysis =
     length (filter (\<lambda>f. processed f \<and> worldLandmarks f \<noteq> None) (frames analysis))"

text \<open>The raw hip flexion series of the three frames.\<close>

definition hip_samples :: "AngleData list" where
  "hip_samples =
     [\<lparr>timestamp = 0, frameIndex = 0, angle = 90\<rparr>,
      \<lparr>timestamp = 2 / 10, frameIndex = 2, angle = 180\<rparr>]"

text \<open>
  The same sample with its angle re-encoded in \<open>(-180, 180]\<close>. A series has no half-turn
  step when no raw difference of consecutive samples is 180 or -180. A raw difference is
  wrap-safe for a direction when the correction of pass 2 in that direction gives the same
  value for it as for the raw difference of the other encoding: below 340 for CCW (a
  difference of 340 or more is a step back of at most 20 degrees across the wrap), above
  -340 for CW, and less than a half turn when there is no direction.
\<close>

definition reencode_signed :: "AngleData \<Rightarrow> AngleData" where
  "reencode_signed sample = sample\<lparr>angle := to_signed (angle sample)\<rparr>"

definition no_half_turn :: "real list \<Rightarrow> bool" where
  "no_half_turn xs = list_all (\<lambda>delta. \<bar>delta\<bar> \<noteq> 180) (consecutive_deltas xs)"

fun wrap_safe :: "direction \<Rightarrow> real \<Rightarrow> bool" where
  "wrap_safe CCW delta = (delta < 340)"
| "wrap_safe CW delta = (- 340 < delta)"
| "wrap_safe Undetermined delta = (\<bar>delta\<bar> < 180)"

definition steps_wrap_safe :: "direction \<Rightarrow> real list \<Rightarrow> bool" where
  "steps_wrap_safe dir xs = list_all (wrap_safe dir) (consecutive_deltas xs)"

text \<open>Twelve samples of a rotation of 72 degrees a step: 2.2 turns.\<close>

definition turns_72 :: "real list" where
  "turns_72 = [0, 72, 144, 216, 288, 0, 72, 144, 216, 288, 0, 72]"


text \<open>
  The rounding of double arithmetic. \<open>MIN_VALUE\<close> is the smallest positive double
  (\<open>Number.MIN_VALUE\<close>, \<open>2^-1074\<close>) and \<open>MIN_NORMAL\<close> the smallest normal one (\<open>2^-1022\<close>).
  A \<open>rounding\<close> is monotone, at most doubles a magnitude, keeps a magnitude of the normal
  range within one percent, gives 0 or a value of magnitude \<open>MIN_VALUE\<close> at least, and never
  gives 0 above half of \<open>MIN_VALUE\<close>: round-to-nearest of IEEE 754 binary64 (with the
  exponent unbounded above, the overflow being \<open>finite_result\<close>) has these five properties.
  \<open>flush\<close> is a rounding that is the identity from \<open>MIN_VALUE\<close> upwards.
\<close>

definition MIN_VALUE :: real where
  "MIN_VALUE = (1 / 2) ^ 1074"

definition MIN_NORMAL :: real where
  "MIN_NORMAL = (1 / 2) ^ 1022"

definition rounding :: "(real \<Rightarrow> real) \<Rightarrow> bool" where
  "rounding rnd =
     ((\<forall>p q. p \<le> q \<longrightarrow> rnd p \<le> rnd q)
      \<and> (\<forall>r. \<bar>rnd r\<bar> \<le> 2 * \<bar>r\<bar>)
      \<and> (\<forall>r. MIN_NORMAL \<le> \<bar>r\<bar> \<longrightarrow> 99 * \<bar>r\<bar> \<le> 100 * \<bar>rnd r\<bar>)
      \<and> (\<forall>r. rnd r = 0 \<or> MIN_VALUE \<le> \<bar>rnd r\<bar>)
      \<and> (\<forall>r. MIN_VALUE / 2 < \<bar>r\<bar> \<longrightarrow> rnd r \<noteq> 0))"






definition COORDINATE_BOUND :: real where
  "COORDINATE_BOUND = 10 ^ 100"







definition huge :: Vector3 where
  "huge = \<lparr>vx = Num (10 ^ 200), vy = Num 0, vz = Num 0\<rparr>"


text \<open>
  \<open>analyzeAngles\<close>, with the arithmetic of the calculate functions exact: each channel is
  the gap-filled raw series of its calculate function (a sample stores the real value of
  the number the function returns), and the cumulative rotation is computed from the
  gap-filled shoulder rotation. \<open>shoulderRotation_channel\<close> is the calculate function of the
  shoulder rotation as the channel runs it.
\<close>

definition analyzeAngles :: "VideoAnalysis \<Rightarrow> AngleAnalysis" where
  "analyzeAngles analysis =
     (let shoulderRotation' =
            analyzeChannel (\<lambda>ls. as_angle (calculateShoulderRotation exact ls)) analysis
      in \<lparr>leftKneeFlexion =
             analyzeChannel (\<lambda>ls. as_angle (calculateLeftKneeFlexion exact ls)) analysis,
           rightKneeFlexion =
             analyzeChannel (\<lambda>ls. as_angle (calculateRightKneeFlexion exact ls)) analysis,
           hipFlexion = analyzeChannel (\<lambda>ls. as_angle (calculateHipFlexion exact ls)) analysis,
           headHipAlignment =
             analyzeChannel (\<lambda>ls. as_angle (calculateHeadHipAlignment exact ls)) analysis,
           weightBearingHipAngle =
             analyzeChannel (\<lambda>ls. as_angle (calculateWeightBearingHipAngle exact ls)) analysis,
           shoulderAngleToIce =
             analyzeChannel (\<lambda>ls. as_angle (calculateShoulderAngleToIce exact ls)) analysis,
           shoulderRotation = shoulderRotation',
           shoulderCumulativeRotation = calculateCumulativeRotation shoulderRotation'\<rparr>)"

definition shoulderRotation_channel :: "PoseLandmark list \<Rightarrow> real option" where
  "shoulderRotation_channel ls = as_angle (calculateShoulderRotation exact ls)"

text \<open>
  The rotation count in the words of the specification: the window runs from the takeoff
  index minus 2, clamped to 0, through the landing index plus 2, clamped to the last index
  of the frame sequence; the start value is the one of the nearest sample at or after the
  start (the least frame index among the samples at or after it), the end value the one of
  the nearest sample at or before the end (the greatest frame index among those at or
  before it).
\<close>

definition nearer_after :: "AngleData \<Rightarrow> AngleData \<Rightarrow> AngleData" where
  "nearer_after data best = (if frameIndex data < frameIndex best then data else best)"

definition nearer_before :: "AngleData \<Rightarrow> AngleData \<Rightarrow> AngleData" where
  "nearer_before data best = (if frameIndex data > frameIndex best then data else best)"

definition nearest_at_or_after :: "int \<Rightarrow> AngleData list \<Rightarrow> AngleData option" where
  "nearest_at_or_after startFrame series =
     (case filter (\<lambda>data. frameIndex data \<ge> startFrame) series of
        [] \<Rightarrow> None
      | candidate # candidates \<Rightarrow> Some (fold nearer_after candidates candidate))"

definition nearest_at_or_before :: "int \<Rightarrow> AngleData list \<Rightarrow> AngleData option" where
  "nearest_at_or_before endFrame series =
     (case filter (\<lambda>data. frameIndex data \<le> endFrame) series of
        [] \<Rightarrow> None
      | candidate # candidates \<Rightarrow> Some (fold nearer_before candidates candidate))"

definition claimed_rotations :: "VideoAnalysis \<Rightarrow> AngleAnalysis \<Rightarrow> nat \<Rightarrow> nat \<Rightarrow> real option" where
  "claimed_rotations analysis angleAnalysis takeoffIndex landingIndex =
     (let startFrame = max 0 (int takeoffIndex - 2);
          endFrame = min (int (length (frames analysis)) - 1) (int landingIndex + 2)
      in case (nearest_at_or_after startFrame (shoulderCumulativeRotation angleAnalysis),
               nearest_at_or_before endFrame (shoulderCumulativeRotation angleAnalysis)) of
           (Some s, Some e) \<Rightarrow> Some (\<bar>angle e - angle s\<bar> / 360)
         | _ \<Rightarrow> None)"

text \<open>
  World landmarks of 33 points whose right shoulder is at \<open>(dx, 0, dz)\<close> from the left one.
  An analysis of eight frames at 10 frames per second: the first two frames without a
  pose, then a skater turning 45 degrees a frame, with one frame (index 6) whose world
  landmarks are an empty array. Its raw shoulder rotation series, and the cumulative
  rotation series that \<open>analyzeAngles\<close> returns for it.
\<close>

definition shoulders :: "real \<Rightarrow> real \<Rightarrow> PoseLandmark list" where
  "shoulders dx dz =
     (replicate 33 (point 0 0))[12 := \<lparr>px = dx, py = 0, pz = Some dz, visibility = None\<rparr>]"

definition skating :: VideoAnalysis where
  "skating =
     \<lparr>frames =
        [frame_at 0, frame_at (1 / 10),
         world_frame (2 / 10) (shoulders 1 0),
         world_frame (3 / 10) (shoulders 1 1),
         world_frame (4 / 10) (shoulders 0 1),
         world_frame (5 / 10) (shoulders (- 1) 1),
         world_frame (6 / 10) [],
         world_frame (7 / 10) (shoulders (- 1) (- 1))],
      totalFrames = 8, processedFrames = 8, duration = 8 / 10, fps = 10, isComplete = True\<rparr>"

definition skating_raw :: "AngleData list" where
  "skating_raw =
     [\<lparr>timestamp = 2 / 10, frameIndex = 2, angle = 0\<rparr>,
      \<lparr>timestamp = 3 / 10, frameIndex = 3, angle = 45\<rparr>,
      \<lparr>timestamp = 4 / 10, frameIndex = 4, angle = 90\<rparr>,
      \<lparr>timestamp = 5 / 10, frameIndex = 5, angle = 135\<rparr>,
      \<lparr>timestamp = 7 / 10, frameIndex = 7, angle = 225\<rparr>]"

definition skating_cumulative :: "AngleData list" where
  "skating_cumulative =
     [\<lparr>timestamp = 2 / 10, frameIndex = 2, angle = 0\<rparr>,
      \<lparr>timestamp = 3 / 10, frameIndex = 3, angle = 45\<rparr>,
      \<lparr>timestamp = 4 / 10, frameIndex = 4, angle = 90\<rparr>,
      \<lparr>timestamp = 5 / 10, frameIndex = 5, angle = 135\<rparr>,
      \<lparr>timestamp = 6 / 10, frameIndex = 4, angle = 180\<rparr>,
      \<lparr>timestamp = 7 / 10, frameIndex = 7, angle = 225\<rparr>]"

section \<open>The two passes as sums\<close>

lemma pass1_body_eq:
  "pass1_body d i s = s + wrappedDelta (angle (d ! i) - angle (d ! (i - 1)))"
  by (simp add: pass1_body_def wrappedDelta_def Let_def)

lemma fold_add_upt:
  "fold (\<lambda>i s. s + f i) [a ..< b] (init::real) = init + sum_list (map f [a ..< b])"
  by (induction b) auto

lemma pass1_eq:
  "pass1 d =
     sum_list (map (\<lambda>i. wrappedDelta (angle (d ! i) - angle (d ! (i - 1)))) [1 ..< length d])"
  unfolding pass1_def pass1_body_eq[abs_def]
  by (simp add: fold_add_upt)

lemma lockedSum_0: "lockedSum d ccw cw 0 = 0"
  by (simp add: lockedSum_def)

lemma lockedSum_Suc:
  "lockedSum d ccw cw (Suc k) =
     lockedSum d ccw cw k + lockedDelta ccw cw (angle (d ! Suc k) - angle (d ! k))"
  by (simp add: lockedSum_def)

lemma pass2_body_eq:
  "pass2_body d ccw cw (Suc k) (s, xs) =
     (s + lockedDelta ccw cw (angle (d ! Suc k) - angle (d ! k)),
      xs @ [\<lparr>timestamp = timestamp (d ! Suc k), frameIndex = frameIndex (d ! Suc k),
             angle = s + lockedDelta ccw cw (angle (d ! Suc k) - angle (d ! k))\<rparr>])"
  by (simp add: pass2_body_def Let_def lockedDelta_def ROTATION_NOISE_THRESHOLD_def)

lemma pass2_fold:
  "fold (pass2_body d ccw cw) [1 ..< Suc k]
      (0, [\<lparr>timestamp = timestamp (d ! 0), frameIndex = frameIndex (d ! 0), angle = 0\<rparr>])
   = (lockedSum d ccw cw k, map (stepSample d ccw cw) [0 ..< Suc k])"
proof (induction k)
  case 0
  show ?case by (simp add: stepSample_def lockedSum_0)
next
  case (Suc k)
  have a: "[1 ..< Suc (Suc k)] = [1 ..< Suc k] @ [Suc k]" by simp
  have b: "[0 ..< Suc (Suc k)] = [0 ..< Suc k] @ [Suc k]" by simp
  show ?case
    unfolding a b fold_append comp_def Suc map_append
    by (simp add: pass2_body_eq lockedSum_Suc stepSample_def del: upt_Suc)
qed

lemma calc_eq:
  assumes "2 \<le> length d"
  shows "calculateCumulativeRotation d =
     map (stepSample d (pass1 d > 0) (pass1 d < 0)) [0 ..< length d]"
proof -
  obtain k where k: "length d = Suc k" using assms by (cases "length d") auto
  show ?thesis
    using assms pass2_fold[of d "pass1 d > 0" "pass1 d < 0" k]
    by (simp add: calculateCumulativeRotation_def Let_def k del: upt_Suc)
qed

lemma calc_short: "length d < 2 \<Longrightarrow> calculateCumulativeRotation d = []"
  by (simp add: calculateCumulativeRotation_def)

lemma calc_length: "2 \<le> length d \<Longrightarrow> length (calculateCumulativeRotation d) = length d"
  by (simp add: calc_eq)

lemma calc_nth:
  assumes "2 \<le> length d" "k < length d"
  shows "calculateCumulativeRotation d ! k = stepSample d (pass1 d > 0) (pass1 d < 0) k"
  unfolding calc_eq[OF assms(1)] using assms(2) by (simp del: upt_Suc)

lemma calc_last:
  assumes "2 \<le> length d"
  shows "last (calculateCumulativeRotation d) =
     stepSample d (pass1 d > 0) (pass1 d < 0) (length d - 1)"
proof -
  have pos: "0 < length d" using assms by (cases d) auto
  then have k: "length d - 1 < length d" by simp
  have ne: "calculateCumulativeRotation d \<noteq> []"
    using calc_length[OF assms] pos by auto
  show ?thesis
    using calc_nth[OF assms k] by (simp add: last_conv_nth[OF ne] calc_length[OF assms])
qed

lemma calc_hd:
  assumes "2 \<le> length d"
  shows "hd (calculateCumulativeRotation d) = stepSample d (pass1 d > 0) (pass1 d < 0) 0"
proof -
  have pos: "0 < length d" using assms by (cases d) auto
  have ne: "calculateCumulativeRotation d \<noteq> []"
    using calc_length[OF assms] pos by auto
  show ?thesis
    using calc_nth[OF assms pos] by (simp add: hd_conv_nth[OF ne])
qed

lemma map_nth_upt: "map (\<lambda>k. f (d ! k)) [0 ..< length d] = map f d"
  by (rule nth_equalityI) auto

section \<open>The reference algorithm as sums\<close>

lemma consecutive_deltas_nth:
  "consecutive_deltas xs = map (\<lambda>i. xs ! i - xs ! (i - 1)) [1 ..< length xs]"
proof (rule nth_equalityI)
  show "length (consecutive_deltas xs) = length (map (\<lambda>i. xs ! i - xs ! (i - 1)) [1 ..< length xs])"
    by (simp add: consecutive_deltas_def)
next
  fix i assume "i < length (consecutive_deltas xs)"
  then have i: "i < length xs - 1" by (simp add: consecutive_deltas_def)
  then show "consecutive_deltas xs ! i = map (\<lambda>i. xs ! i - xs ! (i - 1)) [1 ..< length xs] ! i"
    by (simp add: consecutive_deltas_def nth_tl)
qed

lemma consecutive_deltas_angle:
  "consecutive_deltas (map angle d) =
     map (\<lambda>i. angle (d ! i) - angle (d ! (i - 1))) [1 ..< length d]"
  unfolding consecutive_deltas_nth by (rule map_cong) auto

lemma running_sum_upt:
  "running_sum acc (map f [a ..< b]) =
     map (\<lambda>k. acc + sum_list (map f [a ..< Suc k])) [a ..< b]"
proof (induction "b - a" arbitrary: a acc)
  case 0
  then show ?case by simp
next
  case (Suc n)
  then have ab: "a < b" and n: "n = b - Suc a" by auto
  have "running_sum acc (map f [a ..< b]) =
      (acc + f a) # running_sum (acc + f a) (map f [Suc a ..< b])"
    using ab by (simp add: upt_conv_Cons)
  also have "running_sum (acc + f a) (map f [Suc a ..< b])
      = map (\<lambda>k. acc + f a + sum_list (map f [Suc a ..< Suc k])) [Suc a ..< b]"
    using Suc.hyps(1)[OF n] .
  also have "\<dots> = map (\<lambda>k. acc + sum_list (map f [a ..< Suc k])) [Suc a ..< b]"
    by (rule map_cong) (auto simp: upt_conv_Cons simp del: upt_Suc)
  finally show ?case using ab by (simp add: upt_conv_Cons del: upt_Suc)
qed

lemma reference_net_pass1: "reference_net (map angle d) = pass1 d"
  by (simp add: reference_net_def consecutive_deltas_angle pass1_eq comp_def)

lemma reference_correct_locked:
  "reference_correct (reference_direction net) delta = lockedDelta (net > 0) (net < 0) delta"
  by (simp add: reference_direction_def lockedDelta_def)

lemma reference_cumulative_locked:
  assumes "2 \<le> length d"
  shows "reference_cumulative (map angle d) =
     map (lockedSum d (pass1 d > 0) (pass1 d < 0)) [0 ..< length d]"
proof -
  have "reference_cumulative (map angle d) =
      0 # map (lockedSum d (pass1 d > 0) (pass1 d < 0)) [1 ..< length d]"
    unfolding reference_cumulative_def reference_net_pass1 consecutive_deltas_angle map_map
      comp_def reference_correct_locked
    by (simp add: running_sum_upt[where acc = 0] lockedSum_def cong: map_cong)
  also have "\<dots> = map (lockedSum d (pass1 d > 0) (pass1 d < 0)) [0 ..< length d]"
  proof -
    have "0 < length d" using assms by (cases d) auto
    then have "[0 ..< length d] = 0 # [1 ..< length d]" by (simp add: upt_conv_Cons)
    then show ?thesis by (simp add: lockedSum_0)
  qed
  finally show ?thesis .
qed

section \<open>Sign of the final value\<close>

lemma locked_ge_wrapped: "wrappedDelta delta \<le> lockedDelta True cw delta"
  by (simp add: wrappedDelta_def lockedDelta_def)

lemma locked_le_wrapped: "lockedDelta False True delta \<le> wrappedDelta delta"
  by (simp add: wrappedDelta_def lockedDelta_def)

lemma lockedSum_ge_pass1: "pass1 d \<le> lockedSum d True cw (length d - 1)"
  unfolding pass1_eq lockedSum_def
  by (cases "length d") (auto intro!: sum_list_mono locked_ge_wrapped simp del: upt_Suc)

lemma lockedSum_le_pass1: "2 \<le> length d \<Longrightarrow> lockedSum d False True (length d - 1) \<le> pass1 d"
  unfolding pass1_eq lockedSum_def
  by (cases "length d") (auto intro!: sum_list_mono locked_le_wrapped simp del: upt_Suc)

section \<open>The tracker against the two-pass reference\<close>

text \<open>
  C1. For every shoulder-rotation series with at least 2 samples, the cumulative series
  of \<open>calculateCumulativeRotation\<close> is the one of the two-pass reference algorithm:
  pass 1 sums the wrapped differences of consecutive samples (above 180 minus 360, below
  -180 plus 360) and takes the direction CCW for a positive sum and CW for a negative one;
  pass 2 gives 0 at the first sample and then the running sum of the raw differences, a
  difference below -20 getting 360 added in a CCW series, one above 20 getting 360
  subtracted in a CW series, every other difference unchanged. Each output sample keeps
  the timestamp and the frame index of its input sample.
\<close>

theorem calculateCumulativeRotation_refines_reference:
  assumes "2 \<le> length d"
  shows "map angle (calculateCumulativeRotation d) = reference_cumulative (map angle d)
     \<and> map timestamp (calculateCumulativeRotation d) = map timestamp d
     \<and> map frameIndex (calculateCumulativeRotation d) = map frameIndex d"
proof -
  have "map angle (calculateCumulativeRotation d) = reference_cumulative (map angle d)"
    by (simp add: calc_eq[OF assms] reference_cumulative_locked[OF assms] stepSample_def comp_def)
  moreover have "map timestamp (calculateCumulativeRotation d) = map timestamp d"
    by (simp add: calc_eq[OF assms] stepSample_def comp_def map_nth_upt)
  moreover have "map frameIndex (calculateCumulativeRotation d) = map frameIndex d"
    by (simp add: calc_eq[OF assms] stepSample_def comp_def map_nth_upt)
  ultimately show ?thesis by simp
qed

theorem calculateCumulativeRotation_refines_reference_witness:
  "2 \<le> length (sampled_series [350, 10, 40])
   \<and> map angle (calculateCumulativeRotation (sampled_series [350, 10, 40]))
       = reference_cumulative (map angle (sampled_series [350, 10, 40]))
   \<and> reference_cumulative (map angle (sampled_series [350, 10, 40])) = [0, 20, 50]"
proof -
  have h: "2 \<le> length (sampled_series [350, 10, 40])"
    by (simp add: sampled_series_def)
  have v: "reference_cumulative (map angle (sampled_series [350, 10, 40])) = [0, 20, 50]"
    by code_simp
  from calculateCumulativeRotation_refines_reference[OF h] h v show ?thesis by simp
qed

text \<open>
  C4. For every series with at least 2 samples, the first cumulative sample is exactly 0,
  and the final cumulative value has the sign of the net rotation of pass 1: positive
  when the net rotation is positive, negative when it is negative.
\<close>

theorem cumulative_first_zero_and_sign:
  assumes "2 \<le> length d"
  shows "angle (calculateCumulativeRotation d ! 0) = 0
     \<and> (pass1 d > 0 \<longrightarrow> angle (last (calculateCumulativeRotation d)) > 0)
     \<and> (pass1 d < 0 \<longrightarrow> angle (last (calculateCumulativeRotation d)) < 0)"
proof -
  have pos: "0 < length d" using assms by (cases d) auto
  have "angle (calculateCumulativeRotation d ! 0) = 0"
    using calc_nth[OF assms pos] by (simp add: stepSample_def lockedSum_0)
  moreover have "angle (last (calculateCumulativeRotation d)) > 0" if "pass1 d > 0"
    using that lockedSum_ge_pass1[of d "pass1 d < 0"]
    by (simp add: calc_last[OF assms] stepSample_def)
  moreover have "angle (last (calculateCumulativeRotation d)) < 0" if "pass1 d < 0"
    using that lockedSum_le_pass1[OF assms]
    by (simp add: calc_last[OF assms] stepSample_def)
  ultimately show ?thesis by blast
qed

theorem cumulative_first_zero_and_sign_witness:
  "2 \<le> length (sampled_series [350, 10, 40])
   \<and> pass1 (sampled_series [350, 10, 40]) > 0
   \<and> angle (calculateCumulativeRotation (sampled_series [350, 10, 40]) ! 0) = 0
   \<and> angle (last (calculateCumulativeRotation (sampled_series [350, 10, 40]))) > 0
   \<and> 2 \<le> length (sampled_series [40, 10, 350])
   \<and> pass1 (sampled_series [40, 10, 350]) < 0
   \<and> angle (calculateCumulativeRotation (sampled_series [40, 10, 350]) ! 0) = 0
   \<and> angle (last (calculateCumulativeRotation (sampled_series [40, 10, 350]))) < 0"
proof -
  have h1: "2 \<le> length (sampled_series [350, 10, 40])"
    and h2: "2 \<le> length (sampled_series [40, 10, 350])"
    by (simp_all add: sampled_series_def)
  have p1: "pass1 (sampled_series [350, 10, 40]) > 0" by code_simp
  have p2: "pass1 (sampled_series [40, 10, 350]) < 0" by code_simp
  from cumulative_first_zero_and_sign[OF h1] cumulative_first_zero_and_sign[OF h2] h1 h2 p1 p2
  show ?thesis by simp
qed

section \<open>Rotation count over a window\<close>

lemma find_hd: "xs \<noteq> [] \<Longrightarrow> P (hd xs) \<Longrightarrow> find P xs = Some (hd xs)"
  by (cases xs) auto

lemma find_rev_last: "xs \<noteq> [] \<Longrightarrow> P (last xs) \<Longrightarrow> find P (rev xs) = Some (last xs)"
  by (cases xs rule: rev_cases) auto

lemma calc_nonempty: "2 \<le> length d \<Longrightarrow> calculateCumulativeRotation d \<noteq> []"
  using calc_length[of d] by auto

lemma extract_Some:
  assumes "shoulderCumulativeRotation aa \<noteq> []"
    and "find (\<lambda>data. max 0 (tf - 2) \<le> frameIndex data) (shoulderCumulativeRotation aa) = Some s"
    and "find (\<lambda>data. frameIndex data \<le> lf + 2) (rev (shoulderCumulativeRotation aa)) = Some e"
  shows "extractRotationFromAngleAnalysis (Some aa) tf lf = Some (\<bar>angle e - angle s\<bar> / 360)"
  using assms
  by (simp add: extractRotationFromAngleAnalysis_def ROTATION_PADDING_FRAMES_def Let_def)

text \<open>The rotation count when the window covers the whole series.\<close>

lemma extract_whole:
  assumes len: "2 \<le> length d"
    and first: "max 0 (tf - 2) \<le> frameIndex (d ! 0)"
    and final: "frameIndex (d ! (length d - 1)) \<le> lf + 2"
  shows "extractRotationFromAngleAnalysis (Some (rotation_analysis d)) tf lf =
     Some (\<bar>lockedSum d (pass1 d > 0) (pass1 d < 0) (length d - 1)\<bar> / 360)"
proof -
  let ?c = "calculateCumulativeRotation d"
  have ne: "?c \<noteq> []" by (rule calc_nonempty[OF len])
  have "max 0 (tf - 2) \<le> frameIndex (hd ?c)"
    using first by (simp add: calc_hd[OF len] stepSample_def)
  then have s: "find (\<lambda>data. max 0 (tf - 2) \<le> frameIndex data) ?c = Some (hd ?c)"
    using find_hd[OF ne, where P = "\<lambda>data. max 0 (tf - 2) \<le> frameIndex data"] by simp
  have "frameIndex (last ?c) \<le> lf + 2"
    using final by (simp add: calc_last[OF len] stepSample_def)
  then have e: "find (\<lambda>data. frameIndex data \<le> lf + 2) (rev ?c) = Some (last ?c)"
    using find_rev_last[OF ne, where P = "\<lambda>data. frameIndex data \<le> lf + 2"] by simp
  have sel: "shoulderCumulativeRotation (rotation_analysis d) = ?c"
    by (simp add: rotation_analysis_def)
  have "extractRotationFromAngleAnalysis (Some (rotation_analysis d)) tf lf =
      Some (\<bar>angle (last ?c) - angle (hd ?c)\<bar> / 360)"
    by (rule extract_Some[of "rotation_analysis d", unfolded sel, OF ne s e])
  then show ?thesis
    by (simp add: calc_hd[OF len] calc_last[OF len] stepSample_def lockedSum_0)
qed

lemma upt_1_30:
  "[1 ..< 30] = [1,2,3,4,5,6,7,8,9,10,11,12,13,14,15,16,17,18,19,20,21,22,23,24,25,26,27,28,29::nat]"
  by code_simp

lemma uniform_length: "length uniform_ccw = 30"
  by (simp add: uniform_ccw_def sampled_series_def)

lemma uniform_angle: "i < 30 \<Longrightarrow> angle (uniform_ccw ! i) = real ((36 * i) mod 360)"
  by (simp add: uniform_ccw_def sampled_series_def)

lemma uniform_frameIndex: "i < 30 \<Longrightarrow> frameIndex (uniform_ccw ! i) = int i"
  by (simp add: uniform_ccw_def sampled_series_def)

lemma uniform_pass1: "pass1 uniform_ccw = 1044"
  unfolding pass1_eq uniform_length upt_1_30
  by (simp add: uniform_angle wrappedDelta_def)

lemma uniform_lockedSum: "lockedSum uniform_ccw True False 29 = 1044"
proof -
  have "Suc 29 = 30" by simp
  then have e: "[1 ..< Suc 29] = [1 ..< 30]" by simp
  show ?thesis
    unfolding lockedSum_def e upt_1_30 by (simp add: uniform_angle lockedDelta_def)
qed

lemma uniform_final: "angle (last (calculateCumulativeRotation uniform_ccw)) = 1044"
  using calc_last[of uniform_ccw]
  by (simp add: uniform_length uniform_pass1 stepSample_def uniform_lockedSum)

lemma uniform_rotations:
  "extractRotationFromAngleAnalysis (Some (rotation_analysis uniform_ccw)) 0 29 = Some (29 / 10)"
proof -
  have "extractRotationFromAngleAnalysis (Some (rotation_analysis uniform_ccw)) 0 29 =
     Some (\<bar>lockedSum uniform_ccw (pass1 uniform_ccw > 0) (pass1 uniform_ccw < 0)
              (length uniform_ccw - 1)\<bar> / 360)"
    by (rule extract_whole) (simp_all add: uniform_length uniform_frameIndex)
  then show ?thesis
    by (simp add: uniform_length uniform_pass1 uniform_lockedSum)
qed

text \<open>
  C2 (amended). For the uniform counter-clockwise rotation sampled at 30 evenly spaced
  samples, each step +36 degrees (angles \<open>36 * i mod 360\<close> for \<open>i = 0..29\<close>), the final
  cumulative value is +1044 degrees (29 steps of 36) and the rotation count
  \<open>|cumulative at end - cumulative at start| / 360\<close> is exactly 2.9.
\<close>

theorem uniform_ccw_rotation:
  "angle (last (calculateCumulativeRotation uniform_ccw)) = 1044
   \<and> extractRotationFromAngleAnalysis (Some (rotation_analysis uniform_ccw)) 0 29
       = Some (29 / 10)"
  using uniform_final uniform_rotations by simp

text \<open>
  C2 as stated (a final value of +1080 degrees and a count of exactly 3.0) fails: thirty
  samples are twenty-nine steps.
\<close>

theorem uniform_ccw_rotation_counterexample:
  "\<not> (angle (last (calculateCumulativeRotation uniform_ccw)) = 1080
      \<and> extractRotationFromAngleAnalysis (Some (rotation_analysis uniform_ccw)) 0 29 = Some 3)"
  using uniform_final by simp

section \<open>Encodings of the circular signal\<close>

lemma to_signed_range: "0 \<le> a \<Longrightarrow> a < 360 \<Longrightarrow> - 180 < to_signed a \<and> to_signed a \<le> 180"
  by (simp add: to_signed_def)

lemma wrapped_step:
  assumes "0 \<le> p" "p < 360" "0 \<le> q" "q < 360" and "\<bar>q - p\<bar> \<noteq> 180"
  shows "wrappedDelta (to_signed q - to_signed p) = wrappedDelta (q - p)"
  using assms by (auto simp: wrappedDelta_def to_signed_def split: if_splits)

lemma locked_step:
  assumes "0 \<le> p" "p < 360" "0 \<le> q" "q < 360" and "\<bar>q - p\<bar> \<noteq> 180"
    and "wrap_safe (reference_direction net) (q - p)"
    and "wrap_safe (reference_direction net) (to_signed q - to_signed p)"
  shows "lockedDelta (net > 0) (net < 0) (to_signed q - to_signed p)
       = lockedDelta (net > 0) (net < 0) (q - p)"
proof -
  consider "net > 0" | "net < 0" | "net = 0" by linarith
  then show ?thesis
  proof cases
    case 1
    then show ?thesis
      using assms by (auto simp: reference_direction_def lockedDelta_def to_signed_def split: if_splits)
  next
    case 2
    then show ?thesis
      using assms by (auto simp: reference_direction_def lockedDelta_def to_signed_def split: if_splits)
  next
    case 3
    then show ?thesis
      using assms by (auto simp: reference_direction_def lockedDelta_def to_signed_def split: if_splits)
  qed
qed

lemma reencode_nth:
  assumes "i < length a"
  shows "angle (map reencode_signed a ! i) = to_signed (angle (a ! i))"
    and "timestamp (map reencode_signed a ! i) = timestamp (a ! i)"
    and "frameIndex (map reencode_signed a ! i) = frameIndex (a ! i)"
  using assms by (simp_all add: reencode_signed_def)

lemma steps_nth:
  assumes "list_all P (consecutive_deltas (map angle a))" and "Suc j < length a"
  shows "P (angle (a ! Suc j) - angle (a ! j))"
proof -
  have "\<exists>i\<in>set [1 ..< length a].
      angle (a ! Suc j) - angle (a ! j) = angle (a ! i) - angle (a ! (i - 1))"
    using assms(2) by (intro bexI[of _ "Suc j"]) auto
  then have "angle (a ! Suc j) - angle (a ! j) \<in> set (consecutive_deltas (map angle a))"
    unfolding consecutive_deltas_angle set_map image_iff .
  then show ?thesis using assms(1) unfolding list_all_iff by blast
qed

lemma encoded_nth:
  assumes "unsigned_encoded (map angle a)" and "i < length a"
  shows "0 \<le> angle (a ! i) \<and> angle (a ! i) < 360"
proof -
  have "angle (a ! i) \<in> set (map angle a)" using assms(2) by simp
  then show ?thesis using assms(1) unfolding unsigned_encoded_def list_all_iff by blast
qed

lemma reencoded_deltas:
  assumes enc: "unsigned_encoded (map angle a)"
    and half: "no_half_turn (map angle a)"
    and step: "\<And>p q. 0 \<le> p \<Longrightarrow> p < 360 \<Longrightarrow> 0 \<le> q \<Longrightarrow> q < 360 \<Longrightarrow> \<bar>q - p\<bar> \<noteq> 180
        \<Longrightarrow> Q (q - p) \<Longrightarrow> Q (to_signed q - to_signed p)
        \<Longrightarrow> g (to_signed q - to_signed p) = g (q - p)"
    and qa: "list_all Q (consecutive_deltas (map angle a))"
    and qb: "list_all Q (consecutive_deltas (map angle (map reencode_signed a)))"
    and n: "n \<le> length a"
  shows "map (\<lambda>i. g (angle (map reencode_signed a ! i) - angle (map reencode_signed a ! (i - 1))))
           [1 ..< n]
       = map (\<lambda>i. g (angle (a ! i) - angle (a ! (i - 1)))) [1 ..< n]"
proof (rule map_cong[OF refl])
  fix i assume "i \<in> set [1 ..< n]"
  then have "1 \<le> i" and "i < length a" using n by auto
  then obtain j where j: "i = Suc j" "Suc j < length a" by (cases i) auto
  then have jl: "j < length a" by simp
  let ?p = "angle (a ! j)" and ?q = "angle (a ! Suc j)"
  have p: "0 \<le> ?p \<and> ?p < 360" by (rule encoded_nth[OF enc jl])
  have q: "0 \<le> ?q \<and> ?q < 360" by (rule encoded_nth[OF enc j(2)])
  have h: "\<bar>?q - ?p\<bar> \<noteq> 180"
    using steps_nth[OF half[unfolded no_half_turn_def] j(2)] .
  have a1: "Q (?q - ?p)" by (rule steps_nth[OF qa j(2)])
  have lb: "Suc j < length (map reencode_signed a)" using j(2) by simp
  have "Q (angle (map reencode_signed a ! Suc j) - angle (map reencode_signed a ! j))"
    by (rule steps_nth[OF qb lb])
  then have b1: "Q (to_signed ?q - to_signed ?p)"
    by (simp add: reencode_nth[OF j(2)] reencode_nth[OF jl])
  have "g (to_signed ?q - to_signed ?p) = g (?q - ?p)"
    using step p q h a1 b1 by blast
  then show "g (angle (map reencode_signed a ! i) - angle (map reencode_signed a ! (i - 1)))
      = g (angle (a ! i) - angle (a ! (i - 1)))"
    by (simp add: j(1) reencode_nth[OF j(2)] reencode_nth[OF jl])
qed

lemma list_all_True: "list_all (\<lambda>_. True) xs"
  by (simp add: list_all_iff)

lemma reencoded_pass1:
  assumes "unsigned_encoded (map angle a)" and "no_half_turn (map angle a)"
  shows "pass1 (map reencode_signed a) = pass1 a"
proof -
  have "map (\<lambda>i. wrappedDelta (angle (map reencode_signed a ! i)
                                 - angle (map reencode_signed a ! (i - 1)))) [1 ..< length a]
      = map (\<lambda>i. wrappedDelta (angle (a ! i) - angle (a ! (i - 1)))) [1 ..< length a]"
    by (rule reencoded_deltas[OF assms, where Q = "\<lambda>_. True"])
      (simp_all add: wrapped_step list_all_True)
  then show ?thesis unfolding pass1_eq length_map by (rule arg_cong)
qed

lemma reencoded_lockedSum:
  assumes "unsigned_encoded (map angle a)" and "no_half_turn (map angle a)"
    and "steps_wrap_safe (reference_direction net) (map angle a)"
    and "steps_wrap_safe (reference_direction net) (map angle (map reencode_signed a))"
    and "k < length a"
  shows "lockedSum (map reencode_signed a) (net > 0) (net < 0) k = lockedSum a (net > 0) (net < 0) k"
proof -
  have k: "Suc k \<le> length a" using assms(5) by simp
  have "map (\<lambda>i. lockedDelta (net > 0) (net < 0)
                 (angle (map reencode_signed a ! i) - angle (map reencode_signed a ! (i - 1))))
          [1 ..< Suc k]
      = map (\<lambda>i. lockedDelta (net > 0) (net < 0) (angle (a ! i) - angle (a ! (i - 1))))
          [1 ..< Suc k]"
    by (rule reencoded_deltas[OF assms(1,2) _ assms(3,4)[unfolded steps_wrap_safe_def] k])
      (rule locked_step)
  then show ?thesis unfolding lockedSum_def by (rule arg_cong)
qed

text \<open>
  C3 (amended). For every motion presented once as a series encoded in \<open>[0, 360)\<close> and
  once as the same samples re-encoded in \<open>(-180, 180]\<close>, the pass-1 net rotation, the
  cumulative rotation series and the rotation count over every window are equal in the two
  encodings, and are those of the two-pass reference on the first encoding, provided that
  no step is exactly a half turn and that no small step against the dominant direction
  crosses the wrap of an encoding: in a CCW series no raw difference of either encoding is
  340 or more, in a CW series none is -340 or less, and without a dominant direction none
  is a half turn or more.
\<close>

theorem encoding_invariance_wrap_safe:
  assumes "unsigned_encoded (map angle a)"
    and "no_half_turn (map angle a)"
    and "steps_wrap_safe (reference_direction (pass1 a)) (map angle a)"
    and "steps_wrap_safe (reference_direction (pass1 a)) (map angle (map reencode_signed a))"
  shows "signed_encoded (map angle (map reencode_signed a))
     \<and> pass1 (map reencode_signed a) = pass1 a
     \<and> calculateCumulativeRotation (map reencode_signed a) = calculateCumulativeRotation a
     \<and> extractRotationFromAngleAnalysis (Some (rotation_analysis (map reencode_signed a))) tf lf
       = extractRotationFromAngleAnalysis (Some (rotation_analysis a)) tf lf
     \<and> (2 \<le> length a \<longrightarrow>
          map angle (calculateCumulativeRotation (map reencode_signed a))
            = reference_cumulative (map angle a))"
proof -
  let ?b = "map reencode_signed a"
  have enc: "signed_encoded (map angle ?b)"
    using assms(1)
    by (auto simp: signed_encoded_def unsigned_encoded_def list_all_iff reencode_signed_def
        to_signed_def)
  have p: "pass1 ?b = pass1 a" by (rule reencoded_pass1[OF assms(1,2)])
  have eq: "calculateCumulativeRotation ?b = calculateCumulativeRotation a"
  proof (cases "2 \<le> length a")
    case False
    then show ?thesis by (simp add: calc_short)
  next
    case True
    then have lb: "2 \<le> length ?b" by simp
    have "stepSample ?b (pass1 a > 0) (pass1 a < 0) k = stepSample a (pass1 a > 0) (pass1 a < 0) k"
      if "k < length a" for k
      using reencoded_lockedSum[OF assms that] reencode_nth[OF that]
      by (simp add: stepSample_def)
    then have "map (stepSample ?b (pass1 a > 0) (pass1 a < 0)) [0 ..< length a]
        = map (stepSample a (pass1 a > 0) (pass1 a < 0)) [0 ..< length a]"
      by (intro map_cong[OF refl]) simp
    then show ?thesis
      unfolding calc_eq[OF True] calc_eq[OF lb] p by simp
  qed
  have ex: "extractRotationFromAngleAnalysis (Some (rotation_analysis ?b)) tf lf
      = extractRotationFromAngleAnalysis (Some (rotation_analysis a)) tf lf"
    by (simp add: rotation_analysis_def extractRotationFromAngleAnalysis_def eq)
  have ref: "map angle (calculateCumulativeRotation ?b) = reference_cumulative (map angle a)"
    if "2 \<le> length a"
    unfolding eq
    by (simp add: calc_eq[OF that] reference_cumulative_locked[OF that] stepSample_def comp_def)
  show ?thesis using enc p eq ex ref by blast
qed

theorem encoding_invariance_wrap_safe_witness:
  "unsigned_encoded turns_72
   \<and> no_half_turn turns_72
   \<and> pass1 (sampled_series turns_72) = 792
   \<and> steps_wrap_safe CCW turns_72
   \<and> steps_wrap_safe CCW (map to_signed turns_72)
   \<and> map reencode_signed (sampled_series turns_72) = sampled_series (map to_signed turns_72)
   \<and> signed_encoded (map to_signed turns_72)
   \<and> calculateCumulativeRotation (sampled_series (map to_signed turns_72))
       = calculateCumulativeRotation (sampled_series turns_72)
   \<and> whole_series_rotations (map to_signed turns_72) = whole_series_rotations turns_72
   \<and> whole_series_rotations turns_72 = Some (11 / 5)"
proof -
  let ?a = "sampled_series turns_72"
  have ang: "map angle ?a = turns_72" by code_simp
  have re: "map reencode_signed ?a = sampled_series (map to_signed turns_72)" by code_simp
  have angb: "map angle (map reencode_signed ?a) = map to_signed turns_72" by code_simp
  have net: "pass1 ?a = 792" by code_simp
  have dir: "reference_direction (pass1 ?a) = CCW" by (simp add: net reference_direction_def)
  have h: "unsigned_encoded turns_72 \<and> no_half_turn turns_72
      \<and> steps_wrap_safe CCW turns_72 \<and> steps_wrap_safe CCW (map to_signed turns_72)"
    by code_simp
  have v: "whole_series_rotations turns_72 = Some (11 / 5)" by code_simp
  have l: "length (map to_signed turns_72) = length turns_72" by simp
  have t: "signed_encoded (map angle (map reencode_signed ?a))
     \<and> pass1 (map reencode_signed ?a) = pass1 ?a
     \<and> calculateCumulativeRotation (map reencode_signed ?a) = calculateCumulativeRotation ?a
     \<and> extractRotationFromAngleAnalysis (Some (rotation_analysis (map reencode_signed ?a)))
           0 (int (length turns_72) - 1)
       = extractRotationFromAngleAnalysis (Some (rotation_analysis ?a))
           0 (int (length turns_72) - 1)
     \<and> (2 \<le> length ?a \<longrightarrow>
          map angle (calculateCumulativeRotation (map reencode_signed ?a))
            = reference_cumulative (map angle ?a))"
  proof (rule encoding_invariance_wrap_safe)
    show "unsigned_encoded (map angle ?a)" unfolding ang using h by simp
    show "no_half_turn (map angle ?a)" unfolding ang using h by simp
    show "steps_wrap_safe (reference_direction (pass1 ?a)) (map angle ?a)"
      unfolding ang dir using h by simp
    show "steps_wrap_safe (reference_direction (pass1 ?a)) (map angle (map reencode_signed ?a))"
      unfolding angb dir using h by simp
  qed
  have angs: "map angle (sampled_series (map to_signed turns_72)) = map to_signed turns_72"
    by code_simp
  show ?thesis
    using t h net re v unfolding angb re whole_series_rotations_def l by (simp add: angs)
qed

text \<open>
  C3 as stated fails: the motion 5, 355, 30 degrees in \<open>[0, 360)\<close> is 5, -5, 30 in
  \<open>(-180, 180]\<close>; the net rotation is +25 in both, and pass 2 keeps the raw step +350
  of the first encoding (it is not below -20) but the raw step -10 of the second, so
  the counts are 385/360 and 25/360. The same happens clockwise (30, 355, 5), with a
  half-turn step (90, 270, 280: the directions differ) and without a dominant direction
  (10, 10, 10, 350, 350, 350, 10 over the window of takeoff 0 and landing 1).
\<close>

theorem encoding_invariance_counterexample:
  "unsigned_encoded [5, 355, 30]
   \<and> signed_encoded [5, - 5, 30]
   \<and> map to_signed [5, 355, 30] = [5, - 5, 30]
   \<and> whole_series_rotations [5, 355, 30] = Some (77 / 72)
   \<and> whole_series_rotations [5, - 5, 30] = Some (5 / 72)
   \<and> whole_series_rotations [5, 355, 30] \<noteq> whole_series_rotations [5, - 5, 30]
   \<and> whole_series_rotations [30, 355, 5] = Some (77 / 72)
   \<and> whole_series_rotations (map to_signed [30, 355, 5]) = Some (5 / 72)
   \<and> whole_series_rotations [90, 270, 280] = Some (19 / 36)
   \<and> whole_series_rotations (map to_signed [90, 270, 280]) = Some (17 / 36)
   \<and> pass1 (sampled_series [10, 10, 10, 350, 350, 350, 10]) = 0
   \<and> extractRotationFromAngleAnalysis
         (Some (rotation_analysis (sampled_series [10, 10, 10, 350, 350, 350, 10]))) 0 1
       = Some (17 / 18)
   \<and> extractRotationFromAngleAnalysis
         (Some (rotation_analysis
            (sampled_series (map to_signed [10, 10, 10, 350, 350, 350, 10])))) 0 1
       = Some (1 / 18)"
proof -
  have a: "whole_series_rotations [5, 355, 30] = Some (77 / 72)" by code_simp
  have b: "whole_series_rotations [5, - 5, 30] = Some (5 / 72)" by code_simp
  have c: "map to_signed [5, 355, 30] = [5, - 5, 30]" by (simp add: to_signed_def)
  have d: "unsigned_encoded [5, 355, 30] \<and> signed_encoded [5, - 5, 30]"
    by (simp add: unsigned_encoded_def signed_encoded_def)
  have e: "whole_series_rotations [30, 355, 5] = Some (77 / 72)
      \<and> whole_series_rotations (map to_signed [30, 355, 5]) = Some (5 / 72)"
    by code_simp
  have f: "whole_series_rotations [90, 270, 280] = Some (19 / 36)
      \<and> whole_series_rotations (map to_signed [90, 270, 280]) = Some (17 / 36)"
    by code_simp
  have g: "pass1 (sampled_series [10, 10, 10, 350, 350, 350, 10]) = 0
      \<and> extractRotationFromAngleAnalysis
            (Some (rotation_analysis (sampled_series [10, 10, 10, 350, 350, 350, 10]))) 0 1
          = Some (17 / 18)
      \<and> extractRotationFromAngleAnalysis
            (Some (rotation_analysis
               (sampled_series (map to_signed [10, 10, 10, 350, 350, 350, 10])))) 0 1
          = Some (1 / 18)"
    by code_simp
  show ?thesis using a b c d e f g by simp
qed

section \<open>The metrics engine\<close>

text \<open>
  C6. For every completed analysis and manual markers whose resolved takeoff
  analysis-frame index is greater than or equal to the resolved landing index,
  \<open>computeJumpMetrics\<close> raises the invalid-frame-sequence error and returns no metrics
  bundle (so no negative air time).
\<close>

theorem computeJumpMetrics_rejects_reversed:
  assumes "isComplete an"
    and "takeoffFrame (markers_for mm vt) = Some rawTakeoff"
    and "landingFrame (markers_for mm vt) = Some rawLanding"
    and "findClosestFrameByTime (frames an) (rawTakeoff / 30) = Some t"
    and "findClosestFrameByTime (frames an) (rawLanding / 30) = Some l"
    and "t \<ge> l"
  shows "computeJumpMetrics (Some an) (Some mm) vt aa = Inl (InvalidFrameSequence t l)"
  using assms by (simp add: computeJumpMetrics_def Let_def)

theorem computeJumpMetrics_rejects_reversed_witness:
  "isComplete ten_frames
   \<and> takeoffFrame (markers_for (marked 24 6) User) = Some 24
   \<and> landingFrame (markers_for (marked 24 6) User) = Some 6
   \<and> findClosestFrameByTime (frames ten_frames) (24 / 30) = Some 8
   \<and> findClosestFrameByTime (frames ten_frames) (6 / 30) = Some 2
   \<and> (8::nat) \<ge> 2
   \<and> computeJumpMetrics (Some ten_frames) (Some (marked 24 6)) User None
       = Inl (InvalidFrameSequence 8 2)"
proof -
  have a: "isComplete ten_frames" by (simp add: ten_frames_def)
  have b: "takeoffFrame (markers_for (marked 24 6) User) = Some 24"
    by (simp add: markers_for_def marked_def)
  have c: "landingFrame (markers_for (marked 24 6) User) = Some 6"
    by (simp add: markers_for_def marked_def)
  have d: "findClosestFrameByTime (frames ten_frames) (24 / 30) = Some 8" by code_simp
  have e: "findClosestFrameByTime (frames ten_frames) (6 / 30) = Some 2" by code_simp
  have f: "(8::nat) \<ge> 2" by simp
  from computeJumpMetrics_rejects_reversed[OF a b c d e f, of None] a b c d e
  show ?thesis by simp
qed

text \<open>
  C7. If the shoulder-rotation series has fewer than 2 samples, the cumulative rotation
  tracker produces the empty series, and \<open>computeJumpMetrics\<close> on that series (with
  resolved takeoff before landing) returns \<open>rotations = null\<close> together with the
  computed air time, frames and jump height.
\<close>

theorem short_series_no_rotation:
  assumes "length d < 2"
    and "isComplete an"
    and "takeoffFrame (markers_for mm vt) = Some rawTakeoff"
    and "landingFrame (markers_for mm vt) = Some rawLanding"
    and "findClosestFrameByTime (frames an) (rawTakeoff / 30) = Some t"
    and "findClosestFrameByTime (frames an) (rawLanding / 30) = Some l"
    and "t < l"
  shows "calculateCumulativeRotation d = []
     \<and> computeJumpMetrics (Some an) (Some mm) vt
           (Some (aa\<lparr>shoulderRotation := d,
                     shoulderCumulativeRotation := calculateCumulativeRotation d\<rparr>))
       = Inr \<lparr>airTime = Some (frameTimestamp (frames an ! l) - frameTimestamp (frames an ! t)),
              metricsTakeoffFrame = Some t,
              metricsLandingFrame = Some l,
              rotations = None,
              maxHeight = calculateJumpHeight
                (frameTimestamp (frames an ! l) - frameTimestamp (frames an ! t))\<rparr>"
  using assms
  by (simp add: computeJumpMetrics_def Let_def calc_short extractRotationFromAngleAnalysis_def)

theorem short_series_no_rotation_witness:
  "length (sampled_series [90]) < 2
   \<and> isComplete ten_frames
   \<and> findClosestFrameByTime (frames ten_frames) (6 / 30) = Some 2
   \<and> findClosestFrameByTime (frames ten_frames) (24 / 30) = Some 8
   \<and> (2::nat) < 8
   \<and> calculateCumulativeRotation (sampled_series [90]) = []
   \<and> computeJumpMetrics (Some ten_frames) (Some (marked 6 24)) Reference
         (Some (rotation_analysis (sampled_series [90])))
       = Inr \<lparr>airTime = Some (6 / 10), metricsTakeoffFrame = Some 2,
              metricsLandingFrame = Some 8, rotations = None,
              maxHeight = Some (44145 / 100000)\<rparr>"
proof -
  have s: "length (sampled_series [90]) < 2" by (simp add: sampled_series_def)
  have a: "isComplete ten_frames" by (simp add: ten_frames_def)
  have b: "takeoffFrame (markers_for (marked 6 24) Reference) = Some 6"
    by (simp add: markers_for_def marked_def)
  have c: "landingFrame (markers_for (marked 6 24) Reference) = Some 24"
    by (simp add: markers_for_def marked_def)
  have d: "findClosestFrameByTime (frames ten_frames) (6 / 30) = Some 2" by code_simp
  have e: "findClosestFrameByTime (frames ten_frames) (24 / 30) = Some 8" by code_simp
  have f: "(2::nat) < 8" by simp
  have ts: "frameTimestamp (frames ten_frames ! 8) - frameTimestamp (frames ten_frames ! 2) = 6 / 10"
    by (simp add: ten_frames_def frame_at_def)
  have r: "(rotation_analysis (sampled_series [90]))
      \<lparr>shoulderRotation := sampled_series [90],
        shoulderCumulativeRotation := calculateCumulativeRotation (sampled_series [90])\<rparr>
      = rotation_analysis (sampled_series [90])"
    by (simp add: rotation_analysis_def)
  from short_series_no_rotation[OF s a b c d e f, of "rotation_analysis (sampled_series [90])"]
    s a d e
  show ?thesis by (simp add: ts r calculateJumpHeight_def)
qed

section \<open>The expanded window of the rotation count\<close>

lemma find_least_key:
  fixes key :: "'a \<Rightarrow> int"
  assumes "sorted_wrt (\<lambda>a b. key a < key b) xs"
    and "s \<in> set xs" and "P s"
    and "\<forall>x\<in>set xs. P x \<longrightarrow> key s \<le> key x"
  shows "find P xs = Some s"
  using assms
proof (induction xs)
  case Nil
  then show ?case by simp
next
  case (Cons x xs)
  show ?case
  proof (cases "P x")
    case True
    have "s = x"
    proof (rule ccontr)
      assume "s \<noteq> x"
      then have "s \<in> set xs" using Cons.prems(2) by simp
      then have "key x < key s" using Cons.prems(1) by auto
      moreover have "key s \<le> key x" using Cons.prems(4) True by simp
      ultimately show False by simp
    qed
    then show ?thesis using True by simp
  next
    case False
    then have "s \<noteq> x" using Cons.prems(3) by auto
    then have "s \<in> set xs" using Cons.prems(2) by simp
    moreover have "sorted_wrt (\<lambda>a b. key a < key b) xs" using Cons.prems(1) by simp
    moreover have "\<forall>x\<in>set xs. P x \<longrightarrow> key s \<le> key x" using Cons.prems(4) by simp
    ultimately have "find P xs = Some s" using Cons.IH Cons.prems(3) by blast
    then show ?thesis using False by simp
  qed
qed

lemma find_first_at_or_after:
  assumes "sorted_wrt (<) (map frameIndex series)"
    and "s \<in> set series" and "start \<le> frameIndex s"
    and "\<forall>x\<in>set series. start \<le> frameIndex x \<longrightarrow> frameIndex s \<le> frameIndex x"
  shows "find (\<lambda>data. start \<le> frameIndex data) series = Some s"
proof -
  have "sorted_wrt (\<lambda>a b. frameIndex a < frameIndex b) series"
    using assms(1) by (simp add: sorted_wrt_map)
  then show ?thesis
    using assms(2-4)
    by (intro find_least_key[where key = frameIndex and P = "\<lambda>data. start \<le> frameIndex data"])
      auto
qed

lemma find_last_at_or_before:
  assumes "sorted_wrt (<) (map frameIndex series)"
    and "e \<in> set series" and "frameIndex e \<le> bound"
    and "\<forall>x\<in>set series. frameIndex x \<le> bound \<longrightarrow> frameIndex x \<le> frameIndex e"
  shows "find (\<lambda>data. frameIndex data \<le> bound) (rev series) = Some e"
proof -
  have "sorted_wrt (\<lambda>a b. - frameIndex a < - frameIndex b) (rev series)"
    using assms(1) by (simp add: sorted_wrt_map sorted_wrt_rev)
  then show ?thesis
    using assms(2-4)
    by (intro find_least_key[where key = "\<lambda>data. - frameIndex data"
          and P = "\<lambda>data. frameIndex data \<le> bound"])
      auto
qed

text \<open>
  On a cumulative rotation series whose samples are in increasing frame order, with frame
  indices within the frame sequence, the two searches of
  \<open>extractRotationFromAngleAnalysis\<close> find the nearest sample at or after the start and the
  nearest sample at or before the end of the window, and the missing clamp of the end makes
  no difference.
\<close>

lemma rotation_count_in_frame_order:
  assumes "isComplete an"
    and "takeoffFrame (markers_for mm vt) = Some rawTakeoff"
    and "landingFrame (markers_for mm vt) = Some rawLanding"
    and "findClosestFrameByTime (frames an) (rawTakeoff / 30) = Some t"
    and "findClosestFrameByTime (frames an) (rawLanding / 30) = Some l"
    and "t < l"
    and "sorted_wrt (<) (map frameIndex (shoulderCumulativeRotation aa))"
    and "\<forall>x\<in>set (shoulderCumulativeRotation aa). frameIndex x \<le> int (length (frames an)) - 1"
    and "s \<in> set (shoulderCumulativeRotation aa)"
    and "max 0 (int t - 2) \<le> frameIndex s"
    and "\<forall>x\<in>set (shoulderCumulativeRotation aa).
           max 0 (int t - 2) \<le> frameIndex x \<longrightarrow> frameIndex s \<le> frameIndex x"
    and "e \<in> set (shoulderCumulativeRotation aa)"
    and "frameIndex e \<le> min (int (length (frames an)) - 1) (int l + 2)"
    and "\<forall>x\<in>set (shoulderCumulativeRotation aa).
           frameIndex x \<le> min (int (length (frames an)) - 1) (int l + 2)
             \<longrightarrow> frameIndex x \<le> frameIndex e"
  shows "\<exists>m. computeJumpMetrics (Some an) (Some mm) vt (Some aa) = Inr m
           \<and> rotations m = Some (\<bar>angle e - angle s\<bar> / 360)"
proof -
  let ?series = "shoulderCumulativeRotation aa"
  have ne: "?series \<noteq> []" using assms(9) by auto
  have st: "find (\<lambda>data. max 0 (int t - 2) \<le> frameIndex data) ?series = Some s"
    by (rule find_first_at_or_after[OF assms(7,9,10,11)])
  have e1: "frameIndex e \<le> int l + 2" using assms(13) by simp
  have e2: "\<forall>x\<in>set ?series. frameIndex x \<le> int l + 2 \<longrightarrow> frameIndex x \<le> frameIndex e"
    using assms(8,14) by auto
  have en: "find (\<lambda>data. frameIndex data \<le> int l + 2) (rev ?series) = Some e"
    by (rule find_last_at_or_before[OF assms(7,12) e1 e2])
  have "extractRotationFromAngleAnalysis (Some aa) (int t) (int l)
       = Some (\<bar>angle e - angle s\<bar> / 360)"
    by (rule extract_Some[OF ne st en])
  then show ?thesis
    using assms(1-6) by (simp add: computeJumpMetrics_def Let_def)
qed

lemma rotation_count_in_frame_order_example:
  "isComplete ten_frames
   \<and> findClosestFrameByTime (frames ten_frames) (6 / 30) = Some 2
   \<and> findClosestFrameByTime (frames ten_frames) (24 / 30) = Some 8
   \<and> sorted_wrt (<) (map frameIndex (shoulderCumulativeRotation gapped_analysis))
   \<and> max 0 (int 2 - 2) = 0
   \<and> min (int (length (frames ten_frames)) - 1) (int 8 + 2) = 9
   \<and> (\<exists>m. computeJumpMetrics (Some ten_frames) (Some (marked 6 24)) User (Some gapped_analysis)
             = Inr m \<and> rotations m = Some (35 / 18))"
proof -
  let ?s = "\<lparr>timestamp = 1 / 10, frameIndex = 1, angle = 0\<rparr>"
  let ?e = "\<lparr>timestamp = 9 / 10, frameIndex = 9, angle = 700\<rparr>"
  have ser: "shoulderCumulativeRotation gapped_analysis = [?s,
      \<lparr>timestamp = 3 / 10, frameIndex = 3, angle = 100\<rparr>,
      \<lparr>timestamp = 5 / 10, frameIndex = 5, angle = 300\<rparr>, ?e]"
    by (simp add: gapped_analysis_def gapped_series_def)
  have len: "length (frames ten_frames) = 10" by (simp add: ten_frames_def)
  have a: "isComplete ten_frames" by (simp add: ten_frames_def)
  have b: "takeoffFrame (markers_for (marked 6 24) User) = Some 6"
    by (simp add: markers_for_def marked_def)
  have c: "landingFrame (markers_for (marked 6 24) User) = Some 24"
    by (simp add: markers_for_def marked_def)
  have d: "findClosestFrameByTime (frames ten_frames) (6 / 30) = Some 2" by code_simp
  have e: "findClosestFrameByTime (frames ten_frames) (24 / 30) = Some 8" by code_simp
  have f: "(2::nat) < 8" by simp
  have g: "sorted_wrt (<) (map frameIndex (shoulderCumulativeRotation gapped_analysis))"
    by (simp add: ser)
  have h: "\<forall>x\<in>set (shoulderCumulativeRotation gapped_analysis).
      frameIndex x \<le> int (length (frames ten_frames)) - 1"
    by (simp add: ser len)
  have s1: "?s \<in> set (shoulderCumulativeRotation gapped_analysis)" by (simp add: ser)
  have s2: "max 0 (int 2 - 2) \<le> frameIndex ?s" by simp
  have s3: "\<forall>x\<in>set (shoulderCumulativeRotation gapped_analysis).
      max 0 (int 2 - 2) \<le> frameIndex x \<longrightarrow> frameIndex ?s \<le> frameIndex x"
    by (simp add: ser)
  have e1: "?e \<in> set (shoulderCumulativeRotation gapped_analysis)" by (simp add: ser)
  have e2: "frameIndex ?e \<le> min (int (length (frames ten_frames)) - 1) (int 8 + 2)"
    by (simp add: len)
  have e3: "\<forall>x\<in>set (shoulderCumulativeRotation gapped_analysis).
      frameIndex x \<le> min (int (length (frames ten_frames)) - 1) (int 8 + 2)
        \<longrightarrow> frameIndex x \<le> frameIndex ?e"
    by (simp add: ser len)
  from rotation_count_in_frame_order[OF a b c d e f g h s1 s2 s3 e1 e2 e3] a d e g
  show ?thesis by (simp add: len)
qed

section \<open>Angle between two vectors: rounding\<close>



lemma MIN_NORMAL_le_1: "MIN_NORMAL \<le> 1"
  unfolding MIN_NORMAL_def by (rule power_le_one) simp_all



lemma rnd_mono: "rounding rnd \<Longrightarrow> p \<le> q \<Longrightarrow> rnd p \<le> rnd q"
  by (simp add: rounding_def)

lemma rnd_upper: "rounding rnd \<Longrightarrow> \<bar>rnd r\<bar> \<le> 2 * \<bar>r\<bar>"
  by (simp add: rounding_def)

lemma rnd_lower: "rounding rnd \<Longrightarrow> MIN_NORMAL \<le> \<bar>r\<bar> \<Longrightarrow> 99 * \<bar>r\<bar> \<le> 100 * \<bar>rnd r\<bar>"
  by (simp add: rounding_def)



lemma rnd_zero: "rounding rnd \<Longrightarrow> rnd 0 = 0"
  using rnd_upper[of rnd 0] by simp

lemma rnd_nonneg: "rounding rnd \<Longrightarrow> 0 \<le> r \<Longrightarrow> 0 \<le> rnd r"
  using rnd_mono[of rnd 0 r] by (simp add: rnd_zero)


lemma MAX_VALUE_large: "10 ^ 300 \<le> MAX_VALUE"
  unfolding MAX_VALUE_def by simp

lemma MAX_VALUE_ge: "23040 \<le> MAX_VALUE"
proof -
  have "(23040::real) \<le> 10 ^ 300" by simp
  then show ?thesis using MAX_VALUE_large by (rule order_trans)
qed

lemma MAX_VALUE_pos: "0 < MAX_VALUE"
  using MAX_VALUE_ge by simp


lemma finite_result_cases:
  "finite_result rnd r = PosInf \<or> finite_result rnd r = NegInf \<or> finite_result rnd r = Num (rnd r)"
  by (simp add: finite_result_def)


lemma finite_result_is_Num: "finite_result rnd r = Num a \<Longrightarrow> a = rnd r"
  by (simp add: finite_result_def split: if_splits)

section \<open>From the clamped cosine to the angle\<close>


lemma clamp_NaN: "js_max (Num (- 1)) (js_min (Num 1) NaN) = NaN"
  by simp







lemma angle_of_NaN:
  "js_div rnd (js_mul rnd (js_acos rnd NaN) (Num 180)) (MATH_PI rnd) = NaN"
  by (simp add: MATH_PI_def)

section \<open>Magnitudes and the quotient\<close>








section \<open>The angle between two vectors\<close>






section \<open>Bounded coordinates\<close>

lemma below_MAX_VALUE: "x \<le> 10 ^ 300 \<Longrightarrow> x \<le> MAX_VALUE"
  using MAX_VALUE_large by (rule order_trans[rotated])










section \<open>The angle functions on bounded landmarks\<close>


lemma coordinate_sum_finite: "2 * (COORDINATE_BOUND + COORDINATE_BOUND) \<le> MAX_VALUE"
  by (rule below_MAX_VALUE) (simp add: COORDINATE_BOUND_def)

lemma coordinate_centre_finite: "2 * (COORDINATE_BOUND + COORDINATE_BOUND) \<le> MAX_VALUE"
  by (rule coordinate_sum_finite)


















section \<open>Evaluation under the rounding \<open>flush\<close>\<close>
















text \<open>Two vectors of length \<open>10^200\<close> give \<open>NaN\<close> under every rounding.\<close>

lemma finite_zero: "rounding rnd \<Longrightarrow> finite_result rnd 0 = Num 0"
  using MAX_VALUE_pos by (simp add: finite_result_def rnd_zero)

lemma overflow_every_rounding:
  assumes r: "rounding rnd"
  shows "calculateAngleBetweenVectors rnd huge huge = NaN"
proof -
  define X :: real where "X = 10 ^ 200 * 10 ^ 200"
  have x1: "1 \<le> X" unfolding X_def by simp
  have a: "100 * MAX_VALUE < 99 * X" unfolding X_def MAX_VALUE_def by simp
  have "MIN_NORMAL \<le> \<bar>X\<bar>" using MIN_NORMAL_le_1 x1 by simp
  then have b: "99 * \<bar>X\<bar> \<le> 100 * \<bar>rnd X\<bar>" by (rule rnd_lower[OF r])
  have c: "0 \<le> rnd X" using x1 by (intro rnd_nonneg[OF r]) simp
  have "MAX_VALUE < rnd X" using a b c x1 by simp
  then have "finite_result rnd X = PosInf" by (simp add: finite_result_def)
  then have o: "finite_result rnd (10 ^ 200 * 10 ^ 200) = PosInf" unfolding X_def .
  have m: "magnitude rnd huge = PosInf"
    unfolding magnitude_def huge_def using o by (simp add: finite_zero[OF r])
  have d: "dot_product rnd huge huge = PosInf"
    unfolding dot_product_def huge_def using o by (simp add: finite_zero[OF r])
  show ?thesis by (simp add: calculateAngleBetweenVectors_def m d MATH_PI_def signed_inf_def)
qed

section \<open>The angle between two vectors in double arithmetic\<close>




section \<open>The loop of the interpolation\<close>

lemma loop_found:
  assumes "k \<le> j" and "j < n" and "timestamp (d ! j) \<ge> t"
    and "\<forall>i. k \<le> i \<and> i < j \<longrightarrow> timestamp (d ! i) < t"
  shows "interpolate_loop d t [k ..< n] (b, None) =
     ((if timestamp (d ! j) \<le> t then Some j else if k < j then Some (j - 1) else b), Some j)"
  using assms
proof (induction "j - k" arbitrary: k b)
  case 0
  then have kj: "k = j" by simp
  have "[k ..< n] = j # [Suc j ..< n]" using kj 0 by (simp add: upt_conv_Cons)
  then show ?case using 0 kj by (simp add: Let_def)
next
  case (Suc m)
  then have lt: "k < j" and kn: "k < n" by auto
  have less: "timestamp (d ! k) < t" using Suc.prems(4) lt by simp
  have split: "[k ..< n] = k # [Suc k ..< n]" using kn by (simp add: upt_conv_Cons)
  have m: "m = j - Suc k" using Suc.hyps(2) by simp
  have rest: "interpolate_loop d t [Suc k ..< n] (Some k, None) =
     ((if timestamp (d ! j) \<le> t then Some j else if Suc k < j then Some (j - 1) else Some k),
      Some j)"
    using Suc.hyps(1)[OF m, of "Some k"] lt Suc.prems(2,3,4) by simp
  have "interpolate_loop d t [k ..< n] (b, None) =
      interpolate_loop d t [Suc k ..< n] (Some k, None)"
    unfolding split using less by (simp add: Let_def)
  also note rest
  finally show ?case using lt by (auto simp: Suc_lessI)
qed

lemma loop_not_found:
  assumes "\<forall>i. k \<le> i \<and> i < n \<longrightarrow> timestamp (d ! i) < t"
  shows "interpolate_loop d t [k ..< n] (b, None) = ((if k < n then Some (n - 1) else b), None)"
  using assms
proof (induction "n - k" arbitrary: k b)
  case 0
  then show ?case by simp
next
  case (Suc m)
  then have kn: "k < n" by auto
  have less: "timestamp (d ! k) < t" using Suc.prems kn by simp
  have split: "[k ..< n] = k # [Suc k ..< n]" using kn by (simp add: upt_conv_Cons)
  have m: "m = n - Suc k" using Suc.hyps(2) by simp
  have rest: "interpolate_loop d t [Suc k ..< n] (Some k, None) =
      ((if Suc k < n then Some (n - 1) else Some k), None)"
    using Suc.hyps(1)[OF m, of "Some k"] Suc.prems by simp
  have "interpolate_loop d t [k ..< n] (b, None) =
      interpolate_loop d t [Suc k ..< n] (Some k, None)"
    unfolding split using less by (simp add: Let_def)
  also note rest
  finally show ?case using kn by (auto simp: Suc_lessI)
qed

section \<open>What the interpolation returns\<close>

lemma interpolate_before_first:
  assumes "d \<noteq> []" and "t < timestamp (d ! 0)"
  shows "interpolateAngleValue d t = Some (angle (d ! 0))"
proof (cases "length d = 1")
  case True
  then show ?thesis by (simp add: interpolateAngleValue_def)
next
  case False
  then have n: "0 < length d" "length d \<noteq> 0" "length d \<noteq> 1" using assms(1) by auto
  have "interpolate_loop d t [0 ..< length d] (None, None) = (None, Some 0)"
    using loop_found[of 0 0 "length d" t d None] n(1) assms(2) by simp
  then show ?thesis using n by (simp add: interpolateAngleValue_def)
qed

lemma interpolate_after_last:
  assumes "d \<noteq> []" and "\<forall>i<length d. timestamp (d ! i) < t"
  shows "interpolateAngleValue d t = Some (angle (last d))"
proof (cases "length d = 1")
  case True
  then show ?thesis using assms(1) by (simp add: interpolateAngleValue_def last_conv_nth)
next
  case False
  then have n: "0 < length d" "length d \<noteq> 0" "length d \<noteq> 1" using assms(1) by auto
  have "interpolate_loop d t [0 ..< length d] (None, None) = (Some (length d - 1), None)"
    using loop_not_found[of 0 "length d" d t None] n(1) assms(2) by simp
  then show ?thesis using n assms(1) by (simp add: interpolateAngleValue_def last_conv_nth)
qed

lemma interpolate_between:
  assumes "Suc j < length d" and "\<forall>i\<le>j. timestamp (d ! i) < t" and "t < timestamp (d ! Suc j)"
  shows "interpolateAngleValue d t =
     Some (angle (d ! j) + (angle (d ! Suc j) - angle (d ! j))
            * ((t - timestamp (d ! j)) / (timestamp (d ! Suc j) - timestamp (d ! j))))"
proof -
  have n: "length d \<noteq> 0" "length d \<noteq> 1" using assms(1) by auto
  have "interpolate_loop d t [0 ..< length d] (None, None) = (Some j, Some (Suc j))"
    using loop_found[of 0 "Suc j" "length d" t d None] assms by (simp add: less_Suc_eq_le)
  then show ?thesis using n by (simp add: interpolateAngleValue_def Let_def)
qed

lemma sorted_before:
  assumes "sorted (map timestamp d)" and "j < length d" and "timestamp (d ! j) < t"
  shows "\<forall>i\<le>j. timestamp (d ! i) < t"
proof (intro allI impI)
  fix i assume ij: "i \<le> j"
  have "map timestamp d ! i \<le> map timestamp d ! j"
    by (rule sorted_nth_mono[OF assms(1) ij]) (simp add: assms(2))
  moreover have "i < length d" using ij assms(2) by simp
  ultimately have "timestamp (d ! i) \<le> timestamp (d ! j)"
    using assms(2) by simp
  then show "timestamp (d ! i) < t" using assms(3) by simp
qed

lemma first_index:
  fixes P :: "nat \<Rightarrow> bool"
  assumes "\<exists>j<n. P j"
  shows "\<exists>j<n. P j \<and> (\<forall>i<j. \<not> P i)"
proof -
  from assms obtain j0 where "j0 < n \<and> P j0" by blast
  then have "\<exists>j. (j < n \<and> P j) \<and> (\<forall>i<j. \<not> (i < n \<and> P i))"
    using exists_least_iff[of "\<lambda>j. j < n \<and> P j"] by blast
  then obtain j where j: "j < n" "P j" and least: "\<forall>i<j. \<not> (i < n \<and> P i)" by blast
  have "\<forall>i<j. \<not> P i" using least j(1) by auto
  then show ?thesis using j by blast
qed

lemma interpolate_defined:
  assumes "d \<noteq> []" and "\<forall>i<length d. timestamp (d ! i) \<noteq> t"
  shows "\<exists>v. interpolateAngleValue d t = Some v"
proof (cases "\<exists>j<length d. t \<le> timestamp (d ! j)")
  case False
  then have "\<forall>i<length d. timestamp (d ! i) < t" by (simp add: not_le)
  then show ?thesis using interpolate_after_last[OF assms(1)] by blast
next
  case True
  then obtain j where j: "j < length d" "t \<le> timestamp (d ! j)"
    and least: "\<forall>i<j. \<not> t \<le> timestamp (d ! i)"
    using first_index[of "length d" "\<lambda>j. t \<le> timestamp (d ! j)"] by blast
  have "timestamp (d ! j) \<noteq> t" using assms(2) j(1) by blast
  then have gt: "t < timestamp (d ! j)" using j(2) by simp
  have before: "\<forall>i<j. timestamp (d ! i) < t"
    using least by (simp add: not_le)
  show ?thesis
  proof (cases j)
    case 0
    then show ?thesis using interpolate_before_first[OF assms(1)] gt by simp
  next
    case (Suc m)
    have a: "Suc m < length d" using j(1) Suc by simp
    have b: "\<forall>i\<le>m. timestamp (d ! i) < t" using before Suc by (simp add: less_Suc_eq_le)
    have c: "t < timestamp (d ! Suc m)" using gt Suc by simp
    show ?thesis using interpolate_between[OF a b c] by blast
  qed
qed

section \<open>The loop of the gap filling\<close>

lemma fill_body_step:
  assumes "d \<noteq> []"
  shows "fill_body d p acc = acc @ [filled_sample d (fst p) (snd p)]"
proof (cases "find (within_tolerance (frameTimestamp (snd p))) d")
  case (Some m)
  then show ?thesis
    by (simp add: fill_body_def filled_sample_def Let_def within_tolerance_def[abs_def])
next
  case None
  then have far: "\<forall>x\<in>set d. \<not> within_tolerance (frameTimestamp (snd p)) x"
    by (simp add: find_None_iff)
  have "\<forall>i<length d. timestamp (d ! i) \<noteq> frameTimestamp (snd p)"
  proof (intro allI impI notI)
    fix i assume "i < length d" and eq: "timestamp (d ! i) = frameTimestamp (snd p)"
    then have "d ! i \<in> set d" by simp
    then have "\<not> within_tolerance (frameTimestamp (snd p)) (d ! i)" using far by blast
    then show False using eq by (simp add: within_tolerance_def)
  qed
  then obtain v where "interpolateAngleValue d (frameTimestamp (snd p)) = Some v"
    using interpolate_defined[OF assms] by blast
  then show ?thesis
    using None
    by (simp add: fill_body_def filled_sample_def Let_def within_tolerance_def[abs_def])
qed

lemma fill_fold:
  assumes "d \<noteq> []"
  shows "fold (fill_body d) ps acc = acc @ map (\<lambda>p. filled_sample d (fst p) (snd p)) ps"
  by (induction ps arbitrary: acc) (simp_all add: fill_body_step[OF assms])

lemma fill_eq:
  assumes "d \<noteq> []"
  shows "fillAngleDataGaps d fs =
     (if length fs > length d
      then map (\<lambda>p. filled_sample d (fst p) (snd p)) (zip [0 ..< length fs] fs)
      else d)"
  using assms by (simp add: fillAngleDataGaps_def fill_fold[OF assms] Let_def)

lemma fill_nth:
  assumes "d \<noteq> []" and "length d < length fs" and "k < length fs"
  shows "fillAngleDataGaps d fs ! k = filled_sample d k (fs ! k)"
  using assms by (simp add: fill_eq)

lemma fill_length:
  assumes "d \<noteq> []" and "length d \<le> length fs"
  shows "length (fillAngleDataGaps d fs) = length fs"
  using assms by (simp add: fill_eq)

section \<open>One channel of the analysis\<close>

lemma raw_fold_length: "length (fold (raw_body c) ps acc) \<le> length acc + length ps"
proof (induction ps arbitrary: acc)
  case Nil
  then show ?case by simp
next
  case (Cons p ps)
  have "length (raw_body c p acc) \<le> Suc (length acc)"
    by (simp add: raw_body_def split: option.splits)
  then show ?case using Cons[of "raw_body c p acc"] by simp
qed

lemma raw_series_length: "length (raw_series c an) \<le> length (valid_frames an)"
proof -
  have "length (raw_series c an) \<le> length ([]::AngleData list) + length (valid_frames an)"
    unfolding raw_series_def by (rule raw_fold_length)
  also have "\<dots> = length (valid_frames an)"
    by simp
  finally show ?thesis .
qed

lemma valid_frames_snd:
  "map snd (valid_frames an) =
     filter (\<lambda>f. processed f \<and> worldLandmarks f \<noteq> None) (frames an)"
proof -
  let ?P = "\<lambda>f. processed f \<and> worldLandmarks f \<noteq> None"
  let ?zs = "zip [0 ..< length (frames an)] (frames an)"
  have "map snd (valid_frames an) = map snd (filter (?P \<circ> snd) ?zs)"
    unfolding valid_frames_def comp_def ..
  also have "\<dots> = filter ?P (map snd ?zs)"
    by (rule filter_map[symmetric])
  also have "map snd ?zs = frames an"
    by (rule map_snd_zip) simp
  finally show ?thesis .
qed

lemma analyzeChannel_length:
  assumes "raw_series c an \<noteq> []"
  shows "length (analyzeChannel c an) =
     length (filter (\<lambda>f. processed f \<and> worldLandmarks f \<noteq> None) (frames an))"
proof -
  have "length (raw_series c an) \<le> length (map snd (valid_frames an))"
    using raw_series_length[of c an] by simp
  then have "length (analyzeChannel c an) = length (map snd (valid_frames an))"
    unfolding analyzeChannel_def by (rule fill_length[OF assms])
  then show ?thesis by (simp only: valid_frames_snd)
qed

lemma fill_empty: "fillAngleDataGaps [] fs = []"
  by (simp add: fillAngleDataGaps_def)

lemma analyzeChannel_empty:
  assumes "raw_series c an = []"
  shows "analyzeChannel c an = []"
  unfolding analyzeChannel_def assms by (rule fill_empty)

lemma interpolate_after_last_sorted:
  assumes "sorted (map timestamp d)" and "d \<noteq> []" and "timestamp (last d) < t"
  shows "interpolateAngleValue d t = Some (angle (last d))"
proof -
  have n: "length d - 1 < length d" using assms(2) by simp
  have "timestamp (d ! (length d - 1)) < t"
    using assms(2,3) by (simp add: last_conv_nth)
  then have "\<forall>i\<le>length d - 1. timestamp (d ! i) < t"
    by (rule sorted_before[OF assms(1) n])
  then have "\<forall>i<length d. timestamp (d ! i) < t" by auto
  then show ?thesis by (rule interpolate_after_last[OF assms(2)])
qed

lemma interpolate_between_sorted:
  assumes "sorted (map timestamp d)" and "Suc j < length d"
    and "timestamp (d ! j) < t" and "t < timestamp (d ! Suc j)"
  shows "interpolateAngleValue d t =
     Some (angle (d ! j) + (angle (d ! Suc j) - angle (d ! j))
            * ((t - timestamp (d ! j)) / (timestamp (d ! Suc j) - timestamp (d ! j))))"
proof -
  have j: "j < length d" using assms(2) by simp
  have "\<forall>i\<le>j. timestamp (d ! i) < t" by (rule sorted_before[OF assms(1) j assms(3)])
  then show ?thesis by (rule interpolate_between[OF assms(2) _ assms(4)])
qed

text \<open>
  C8 (amended). For every angle channel whose raw series has at least one sample, the
  gap-filled series of \<open>analyzeAngles\<close> has exactly one sample per processed frame with
  world landmarks (its length is the count of such frames); a channel with no raw sample
  stays empty. Where the raw series is shorter than the frames, the sample of a frame is
  the first raw sample within 10 ms of the frame's timestamp, and otherwise a sample at
  the frame's timestamp with the interpolated angle: for raw samples in time order, the
  first angle before the first sample, the last angle after the last sample, and the
  linear interpolation between the two neighbouring samples in between.
\<close>

theorem analyzeChannel_gap_filled:
  "(raw_series calculate analysis \<noteq> [] \<longrightarrow>
      length (analyzeChannel calculate analysis) = valid_frame_count analysis)
   \<and> (raw_series calculate analysis = [] \<longrightarrow> analyzeChannel calculate analysis = [])
   \<and> (d \<noteq> [] \<and> length d < length fs \<and> k < length fs \<longrightarrow>
        fillAngleDataGaps d fs ! k = filled_sample d k (fs ! k))
   \<and> (d \<noteq> [] \<and> t < timestamp (d ! 0) \<longrightarrow>
        interpolateAngleValue d t = Some (angle (d ! 0)))
   \<and> (sorted (map timestamp d) \<and> d \<noteq> [] \<and> timestamp (last d) < t \<longrightarrow>
        interpolateAngleValue d t = Some (angle (last d)))
   \<and> (sorted (map timestamp d) \<and> Suc j < length d
        \<and> timestamp (d ! j) < t \<and> t < timestamp (d ! Suc j) \<longrightarrow>
        interpolateAngleValue d t =
          Some (angle (d ! j) + (angle (d ! Suc j) - angle (d ! j))
                 * ((t - timestamp (d ! j)) / (timestamp (d ! Suc j) - timestamp (d ! j)))))"
proof (intro conjI impI)
  assume "raw_series calculate analysis \<noteq> []"
  then show "length (analyzeChannel calculate analysis) = valid_frame_count analysis"
    unfolding valid_frame_count_def by (rule analyzeChannel_length)
next
  assume "raw_series calculate analysis = []"
  then show "analyzeChannel calculate analysis = []" by (rule analyzeChannel_empty)
next
  assume "d \<noteq> [] \<and> length d < length fs \<and> k < length fs"
  then show "fillAngleDataGaps d fs ! k = filled_sample d k (fs ! k)"
    using fill_nth by blast
next
  assume "d \<noteq> [] \<and> t < timestamp (d ! 0)"
  then show "interpolateAngleValue d t = Some (angle (d ! 0))"
    using interpolate_before_first by blast
next
  assume "sorted (map timestamp d) \<and> d \<noteq> [] \<and> timestamp (last d) < t"
  then show "interpolateAngleValue d t = Some (angle (last d))"
    using interpolate_after_last_sorted by blast
next
  assume "sorted (map timestamp d) \<and> Suc j < length d
    \<and> timestamp (d ! j) < t \<and> t < timestamp (d ! Suc j)"
  then show "interpolateAngleValue d t =
      Some (angle (d ! j) + (angle (d ! Suc j) - angle (d ! j))
             * ((t - timestamp (d ! j)) / (timestamp (d ! Suc j) - timestamp (d ! j))))"
    using interpolate_between_sorted by blast
qed

lemma finite_exact:
  assumes "\<bar>r\<bar> \<le> 23040"
  shows "finite_result exact r = Num r"
proof -
  have "\<bar>r\<bar> \<le> MAX_VALUE" using assms MAX_VALUE_ge by (rule order_trans)
  then show ?thesis by (auto simp: finite_result_def exact_def)
qed

lemma right_angle_exact:
  "calculateAngleBetweenVectors exact \<lparr>vx = Num 0, vy = Num (- 1), vz = Num 0\<rparr>
     \<lparr>vx = Num 1, vy = Num 0, vz = Num 0\<rparr> = Num 90"
proof -
  have "\<bar>pi / 2 * 180\<bar> \<le> (23040::real)" using pi_less_4 pi_gt_zero by simp
  then have m: "finite_result exact (pi / 2 * 180) = Num (pi / 2 * 180)" by (rule finite_exact)
  have jm: "js_mul exact (Num (pi / 2)) (Num 180) = Num (pi / 2 * 180)"
    unfolding js_mul.simps m by (rule refl)
  have f90: "finite_result exact 90 = Num 90" by (rule finite_exact) simp
  have "js_div exact (Num (pi / 2 * 180)) (Num pi) = finite_result exact (pi / 2 * 180 / pi)"
    by simp
  also have "pi / 2 * 180 / pi = 90" by simp
  finally have jd: "js_div exact (Num (pi / 2 * 180)) (MATH_PI exact) = Num 90"
    unfolding MATH_PI_def exact_def[of pi] f90 .
  have "js_acos exact (Num 0) = Num (exact (arccos 0))" by simp
  then have a: "js_acos exact (Num 0) = Num (pi / 2)" unfolding arccos_0 exact_def .
  have e: "calculateAngleBetweenVectors exact \<lparr>vx = Num 0, vy = Num (- 1), vz = Num 0\<rparr>
     \<lparr>vx = Num 1, vy = Num 0, vz = Num 0\<rparr>
     = js_div exact (js_mul exact (js_acos exact (Num 0)) (Num 180)) (MATH_PI exact)"
    by (simp add: calculateAngleBetweenVectors_def dot_product_def magnitude_def finite_exact
        exact_def[of "sqrt 1", simplified] exact_def[of 1])
  show ?thesis unfolding e a jm jd by (rule refl)
qed

lemma straight_exact:
  "calculateAngleBetweenVectors exact \<lparr>vx = Num 0, vy = Num (- 1), vz = Num 0\<rparr>
     \<lparr>vx = Num 0, vy = Num 1, vz = Num 0\<rparr> = Num 180"
proof -
  have "\<bar>pi * 180\<bar> \<le> (23040::real)" using pi_less_4 pi_gt_zero by simp
  then have m: "finite_result exact (pi * 180) = Num (pi * 180)" by (rule finite_exact)
  have jm: "js_mul exact (Num pi) (Num 180) = Num (pi * 180)"
    unfolding js_mul.simps m by (rule refl)
  have f180: "finite_result exact 180 = Num 180" by (rule finite_exact) simp
  have "js_div exact (Num (pi * 180)) (Num pi) = finite_result exact (pi * 180 / pi)"
    by simp
  also have "pi * 180 / pi = 180" by simp
  finally have jd: "js_div exact (Num (pi * 180)) (MATH_PI exact) = Num 180"
    unfolding MATH_PI_def exact_def[of pi] f180 .
  have "js_acos exact (Num (- 1)) = Num (exact (arccos (- 1)))" by simp
  then have a: "js_acos exact (Num (- 1)) = Num pi" unfolding arccos_minus_1 exact_def .
  have e: "calculateAngleBetweenVectors exact \<lparr>vx = Num 0, vy = Num (- 1), vz = Num 0\<rparr>
     \<lparr>vx = Num 0, vy = Num 1, vz = Num 0\<rparr>
     = js_div exact (js_mul exact (js_acos exact (Num (- 1))) (Num 180)) (MATH_PI exact)"
    by (simp add: calculateAngleBetweenVectors_def dot_product_def magnitude_def finite_exact
        exact_def[of "sqrt 1", simplified] exact_def[of 1])
  show ?thesis unfolding e a jm jd by (rule refl)
qed

lemma sub_exact: "\<bar>a - b\<bar> \<le> 23040 \<Longrightarrow> js_sub exact (Num a) (Num b) = Num (a - b)"
  using finite_exact[of "a - b"] by (simp add: js_sub_def)

lemma hip_upright: "hipFlexion_channel upright = Some 90"
proof -
  have l: "landmark_at upright LEFT_SHOULDER = Some (point 0 (- 1))"
    "landmark_at upright LEFT_HIP = Some (point 0 0)"
    "landmark_at upright LEFT_KNEE = Some (point 1 0)"
    by (simp_all add: landmark_at_def upright_def LEFT_SHOULDER_def LEFT_HIP_def LEFT_KNEE_def)
  have v: "vector_from_to exact (point 0 0) (point 0 (- 1)) = \<lparr>vx = Num 0, vy = Num (- 1), vz = Num 0\<rparr>"
    "vector_from_to exact (point 0 0) (point 1 0) = \<lparr>vx = Num 1, vy = Num 0, vz = Num 0\<rparr>"
    by (simp_all add: vector_from_to_def point_def z_or_0_def sub_exact)
  show ?thesis
    unfolding hipFlexion_channel_def calculateHipFlexion_def l Let_def prod.case option.case v
      right_angle_exact
    by (simp add: as_angle_def)
qed

lemma hip_folded: "hipFlexion_channel folded = Some 180"
proof -
  have l: "landmark_at folded LEFT_SHOULDER = Some (point 0 (- 1))"
    "landmark_at folded LEFT_HIP = Some (point 0 0)"
    "landmark_at folded LEFT_KNEE = Some (point 0 1)"
    by (simp_all add: landmark_at_def folded_def LEFT_SHOULDER_def LEFT_HIP_def LEFT_KNEE_def)
  have v: "vector_from_to exact (point 0 0) (point 0 (- 1)) = \<lparr>vx = Num 0, vy = Num (- 1), vz = Num 0\<rparr>"
    "vector_from_to exact (point 0 0) (point 0 1) = \<lparr>vx = Num 0, vy = Num 1, vz = Num 0\<rparr>"
    by (simp_all add: vector_from_to_def point_def z_or_0_def sub_exact)
  show ?thesis
    unfolding hipFlexion_channel_def calculateHipFlexion_def l Let_def prod.case option.case v
      straight_exact
    by (simp add: as_angle_def)
qed

lemma hip_missing: "hipFlexion_channel [] = None"
  by (simp add: hipFlexion_channel_def as_angle_def calculateHipFlexion_def landmark_at_def)

lemma three_frames_valid:
  "valid_frames three_frames =
     [(0, world_frame 0 upright), (1, world_frame (1 / 10) []), (2, world_frame (2 / 10) folded)]"
  by (simp add: valid_frames_def three_frames_def world_frame_def upt_rec)

lemma three_frames_raw: "raw_series hipFlexion_channel three_frames = hip_samples"
  by (simp add: raw_series_def three_frames_valid raw_body_def world_frame_def
      hip_upright hip_folded hip_missing hip_samples_def)

lemma three_frames_count: "valid_frame_count three_frames = 3"
  by (simp add: valid_frame_count_def three_frames_def world_frame_def)

theorem analyzeChannel_gap_filled_witness:
  "raw_series hipFlexion_channel three_frames \<noteq> []
   \<and> valid_frame_count three_frames = 3
   \<and> length (analyzeChannel hipFlexion_channel three_frames) = 3
   \<and> sorted (map timestamp hip_samples)
   \<and> length hip_samples < length (map snd (valid_frames three_frames))
   \<and> fillAngleDataGaps hip_samples (map snd (valid_frames three_frames)) ! 1
       = \<lparr>timestamp = 1 / 10, frameIndex = 1, angle = 135\<rparr>
   \<and> interpolateAngleValue hip_samples (- 1) = Some 90
   \<and> interpolateAngleValue hip_samples 1 = Some 180
   \<and> interpolateAngleValue hip_samples (1 / 10) = Some 135"
proof -
  let ?fs = "map snd (valid_frames three_frames)"
  have ne: "raw_series hipFlexion_channel three_frames \<noteq> []"
    by (simp add: three_frames_raw hip_samples_def)
  have hne: "hip_samples \<noteq> []" by (simp add: hip_samples_def)
  have so: "sorted (map timestamp hip_samples)" by (simp add: hip_samples_def)
  have len: "length hip_samples < length ?fs" "(1::nat) < length ?fs"
    by (simp_all add: three_frames_valid hip_samples_def)
  have first: "- 1 < timestamp (hip_samples ! 0)" by (simp add: hip_samples_def)
  have final: "timestamp (last hip_samples) < 1" by (simp add: hip_samples_def)
  have mid: "Suc 0 < length hip_samples" "timestamp (hip_samples ! 0) < 1 / 10"
    "1 / 10 < timestamp (hip_samples ! Suc 0)"
    by (simp_all add: hip_samples_def)
  have nomatch: "find (within_tolerance (frameTimestamp (?fs ! 1))) hip_samples = None"
    by (simp add: three_frames_valid hip_samples_def within_tolerance_def world_frame_def)
  note a = analyzeChannel_gap_filled[of hipFlexion_channel three_frames hip_samples ?fs 1 "- 1" 0]
  note b = analyzeChannel_gap_filled[of hipFlexion_channel three_frames hip_samples ?fs 1 1 0]
  note c = analyzeChannel_gap_filled[of hipFlexion_channel three_frames hip_samples ?fs 1 "1 / 10" 0]
  have 1: "length (analyzeChannel hipFlexion_channel three_frames) = 3"
    using a ne three_frames_count by simp
  have 2: "interpolateAngleValue hip_samples (- 1) = Some 90"
    using a hne first by (simp add: hip_samples_def)
  have 3: "interpolateAngleValue hip_samples 1 = Some 180"
    using b hne so final by (simp add: hip_samples_def)
  have 4: "interpolateAngleValue hip_samples (1 / 10) = Some 135"
    using c so mid by (simp add: hip_samples_def)
  have 5: "fillAngleDataGaps hip_samples ?fs ! 1 = filled_sample hip_samples 1 (?fs ! 1)"
    using c hne len by simp
  have 6: "filled_sample hip_samples 1 (?fs ! 1) = \<lparr>timestamp = 1 / 10, frameIndex = 1, angle = 135\<rparr>"
    using nomatch 4 by (simp add: filled_sample_def three_frames_valid world_frame_def)
  show ?thesis using ne three_frames_count 1 so len(1) 5 6 2 3 4 by simp
qed

text \<open>
  C8 as stated fails for a channel without any raw sample: one processed frame with world
  landmarks that lack the landmarks of the hip flexion leaves that channel empty.
\<close>

theorem analyzeChannel_gap_filled_counterexample:
  "valid_frame_count one_empty_frame = 1
   \<and> analyzeChannel hipFlexion_channel one_empty_frame = []
   \<and> length (analyzeChannel hipFlexion_channel one_empty_frame) \<noteq> valid_frame_count one_empty_frame"
proof -
  have a: "valid_frame_count one_empty_frame = 1"
    by (simp add: valid_frame_count_def one_empty_frame_def world_frame_def)
  have b: "analyzeChannel hipFlexion_channel one_empty_frame = []"
    by (simp add: analyzeChannel_def raw_series_def valid_frames_def one_empty_frame_def
        world_frame_def raw_body_def hip_missing fillAngleDataGaps_def)
  show ?thesis using a b by simp
qed

section \<open>The rotation count of an analysis with a filled gap\<close>

lemma atan2_values:
  "atan2 0 1 = 0" "atan2 1 1 = pi / 4" "atan2 1 0 = pi / 2"
  "atan2 1 (- 1) = 3 * pi / 4" "atan2 (- 1) (- 1) = - (3 * pi / 4)"
  by (simp_all add: atan2_def arctan_one arctan_minus)

lemma shoulder_landmarks:
  "landmark_at (shoulders dx dz) LEFT_SHOULDER = Some (point 0 0)"
  "landmark_at (shoulders dx dz) RIGHT_SHOULDER
     = Some \<lparr>px = dx, py = 0, pz = Some dz, visibility = None\<rparr>"
  by (simp_all add: landmark_at_def shoulders_def LEFT_SHOULDER_def RIGHT_SHOULDER_def)

lemma degrees_exact:
  assumes "\<bar>a\<bar> \<le> 4"
  shows "js_mul exact (Num a) (js_div exact (Num 180) (MATH_PI exact)) = Num (a * (180 / pi))"
proof -
  have p: "2 \<le> pi" by (rule pi_ge_two)
  then have q: "0 \<le> 180 / pi \<and> 180 / pi \<le> 90" by (simp add: pos_divide_le_eq)
  then have "\<bar>180 / pi\<bar> \<le> 23040" by simp
  then have f: "finite_result exact (180 / pi) = Num (180 / pi)" by (rule finite_exact)
  have "js_div exact (Num 180) (Num pi) = finite_result exact (180 / pi)" by simp
  then have d: "js_div exact (Num 180) (MATH_PI exact) = Num (180 / pi)"
    unfolding MATH_PI_def exact_def[of pi] f .
  have "\<bar>a\<bar> * \<bar>180 / pi\<bar> \<le> 4 * 90" using assms q by (intro mult_mono) simp_all
  then have "\<bar>a * (180 / pi)\<bar> \<le> 23040" unfolding abs_mult by simp
  then have m: "finite_result exact (a * (180 / pi)) = Num (a * (180 / pi))"
    by (rule finite_exact)
  show ?thesis unfolding d js_mul.simps m by (rule refl)
qed

lemma shoulder_rotation:
  assumes "\<bar>dx\<bar> \<le> 1" and "\<bar>dz\<bar> \<le> 1" and "atan2 dz dx = a" and "\<bar>a\<bar> \<le> 4"
    and "degrees = a * (180 / pi)" and "\<bar>degrees\<bar> \<le> 360"
  shows "shoulderRotation_channel (shoulders dx dz)
     = Some (if degrees < 0 then degrees + 360 else degrees)"
proof -
  have x: "js_sub exact (Num dx) (Num 0) = Num dx" using sub_exact[of dx 0] assms(1) by simp
  have z: "js_sub exact (Num dz) (Num 0) = Num dz" using sub_exact[of dz 0] assms(2) by simp
  have t: "js_atan2 exact (Num dz) (Num dx) = Num a" by (simp add: assms(3) exact_def)
  have d: "js_mul exact (Num a) (js_div exact (Num 180) (MATH_PI exact)) = Num degrees"
    unfolding assms(5) by (rule degrees_exact[OF assms(4)])
  have "\<bar>degrees + 360\<bar> \<le> 23040" using assms(6) by simp
  then have s: "finite_result exact (degrees + 360) = Num (degrees + 360)"
    by (rule finite_exact)
  show ?thesis
    unfolding shoulderRotation_channel_def calculateShoulderRotation_def shoulder_landmarks
      prod.case option.case Let_def point_def z_or_0_def PoseLandmark.simps x z t d
    by (simp add: s as_angle_def)
qed

lemma shoulder_values:
  "shoulderRotation_channel (shoulders 1 0) = Some 0"
  "shoulderRotation_channel (shoulders 1 1) = Some 45"
  "shoulderRotation_channel (shoulders 0 1) = Some 90"
  "shoulderRotation_channel (shoulders (- 1) 1) = Some 135"
  "shoulderRotation_channel (shoulders (- 1) (- 1)) = Some 225"
proof -
  have p: "0 < pi" "pi \<le> 4" using pi_gt_zero pi_less_4 by simp_all
  show "shoulderRotation_channel (shoulders 1 0) = Some 0"
    using shoulder_rotation[of 1 0 0 0, OF _ _ atan2_values(1)] by simp
  show "shoulderRotation_channel (shoulders 1 1) = Some 45"
    using shoulder_rotation[of 1 1 "pi / 4" 45, OF _ _ atan2_values(2)] p by simp
  show "shoulderRotation_channel (shoulders 0 1) = Some 90"
    using shoulder_rotation[of 0 1 "pi / 2" 90, OF _ _ atan2_values(3)] p by simp
  show "shoulderRotation_channel (shoulders (- 1) 1) = Some 135"
    using shoulder_rotation[of "- 1" 1 "3 * pi / 4" 135, OF _ _ atan2_values(4)] p by simp
  show "shoulderRotation_channel (shoulders (- 1) (- 1)) = Some 225"
    using shoulder_rotation[of "- 1" "- 1" "- (3 * pi / 4)" "- 135", OF _ _ atan2_values(5)] p
    by simp
qed

lemma shoulder_missing: "shoulderRotation_channel [] = None"
  by (simp add: shoulderRotation_channel_def as_angle_def calculateShoulderRotation_def
      landmark_at_def)


lemma skating_valid:
  "valid_frames skating =
     [(2, world_frame (2 / 10) (shoulders 1 0)),
      (3, world_frame (3 / 10) (shoulders 1 1)),
      (4, world_frame (4 / 10) (shoulders 0 1)),
      (5, world_frame (5 / 10) (shoulders (- 1) 1)),
      (6, world_frame (6 / 10) []),
      (7, world_frame (7 / 10) (shoulders (- 1) (- 1)))]"
  by (simp add: valid_frames_def skating_def world_frame_def frame_at_def upt_rec)

lemma skating_raw_series: "raw_series shoulderRotation_channel skating = skating_raw"
  by (simp add: raw_series_def skating_valid raw_body_def world_frame_def
      shoulder_values shoulder_missing skating_raw_def)

lemma skating_filled:
  "fillAngleDataGaps skating_raw (map snd (valid_frames skating))
     = [\<lparr>timestamp = 2 / 10, frameIndex = 2, angle = 0\<rparr>,
        \<lparr>timestamp = 3 / 10, frameIndex = 3, angle = 45\<rparr>,
        \<lparr>timestamp = 4 / 10, frameIndex = 4, angle = 90\<rparr>,
        \<lparr>timestamp = 5 / 10, frameIndex = 5, angle = 135\<rparr>,
        \<lparr>timestamp = 6 / 10, frameIndex = 4, angle = 180\<rparr>,
        \<lparr>timestamp = 7 / 10, frameIndex = 7, angle = 225\<rparr>]"
  by code_simp

lemma skating_rotation_series:
  "calculateCumulativeRotation
     [\<lparr>timestamp = 2 / 10, frameIndex = 2, angle = 0\<rparr>,
      \<lparr>timestamp = 3 / 10, frameIndex = 3, angle = 45\<rparr>,
      \<lparr>timestamp = 4 / 10, frameIndex = 4, angle = 90\<rparr>,
      \<lparr>timestamp = 5 / 10, frameIndex = 5, angle = 135\<rparr>,
      \<lparr>timestamp = 6 / 10, frameIndex = 4, angle = 180\<rparr>,
      \<lparr>timestamp = 7 / 10, frameIndex = 7, angle = 225\<rparr>] = skating_cumulative"
  by code_simp

lemma skating_analysis:
  "shoulderCumulativeRotation (analyzeAngles skating) = skating_cumulative"
  unfolding analyzeAngles_def Let_def AngleAnalysis.simps analyzeChannel_def
    shoulderRotation_channel_def[symmetric] skating_raw_series skating_filled
    skating_rotation_series
  by (rule refl)

lemma skating_frames:
  "findClosestFrameByTime (frames skating) (6 / 30) = Some 2"
  "findClosestFrameByTime (frames skating) (9 / 30) = Some 3"
  by code_simp+

lemma skating_timestamps:
  "frameTimestamp (frames skating ! 2) = 2 / 10"
  "frameTimestamp (frames skating ! 3) = 3 / 10"
  by (simp_all add: skating_def world_frame_def)

lemma skating_claimed:
  "claimed_rotations skating (analyzeAngles skating) 2 3 = Some (3 / 8)"
proof -
  have "length (frames skating) = 8" by (simp add: skating_def)
  then show ?thesis
    unfolding claimed_rotations_def skating_analysis
    by (simp add: nearest_at_or_after_def nearest_at_or_before_def nearer_after_def
        nearer_before_def skating_cumulative_def)
qed

text \<open>
  C5. The claim: the rotation count of the metrics engine is
  \<open>|cumulative(end) - cumulative(start)| / 360\<close> over the window from the takeoff index
  minus 2, clamped to 0, through the landing index plus 2, clamped to the last index of
  the sequence, with the nearest sample at or after the start and the nearest sample at or
  before the end. It fails on the code: \<open>fillAngleDataGaps\<close> labels a sample it interpolates
  with the position of the frame among the frames that have world landmarks
  (\<open>allFrames.indexOf\<close>), where the raw samples carry the position in \<open>analysis.frames\<close>.
  For the analysis \<open>skating\<close> the frame indices of the shoulder rotation series are
  2, 3, 4, 5, 4, 7: the sample of frame 6 is labelled 4. With takeoff at frame 2 and landing
  at frame 3 the window ends at frame 5; the search from the end of the series stops at the
  sample of frame 6 (cumulative rotation 180), so the metrics engine returns 1/2, where the
  nearest sample at or before frame 5 (cumulative rotation 135) gives 3/8.
\<close>

theorem rotation_count_mislabelled_sample:
  "map frameIndex (shoulderRotation (analyzeAngles skating)) = [2, 3, 4, 5, 4, 7]
   \<and> shoulderCumulativeRotation (analyzeAngles skating) = skating_cumulative
   \<and> computeJumpMetrics (Some skating) (Some (marked 6 9)) Reference
         (Some (analyzeAngles skating))
       = Inr \<lparr>airTime = Some (1 / 10), metricsTakeoffFrame = Some 2,
               metricsLandingFrame = Some 3, rotations = Some (1 / 2),
               maxHeight = Some (981 / 80000)\<rparr>
   \<and> claimed_rotations skating (analyzeAngles skating) 2 3 = Some (3 / 8)"
proof -
  have a: "map frameIndex (shoulderRotation (analyzeAngles skating)) = [2, 3, 4, 5, 4, 7]"
    unfolding analyzeAngles_def Let_def AngleAnalysis.simps analyzeChannel_def
      shoulderRotation_channel_def[symmetric] skating_raw_series skating_filled
    by simp
  have e: "extractRotationFromAngleAnalysis (Some (analyzeAngles skating)) (int 2) (int 3)
      = Some (1 / 2)"
    by (simp add: extractRotationFromAngleAnalysis_def skating_analysis skating_cumulative_def
        ROTATION_PADDING_FRAMES_def)
  have i: "isComplete skating" by (simp add: skating_def)
  have h: "calculateJumpHeight (1 / 10) = Some (981 / 80000)"
    by (simp add: calculateJumpHeight_def)
  have c: "computeJumpMetrics (Some skating) (Some (marked 6 9)) Reference
         (Some (analyzeAngles skating))
       = Inr \<lparr>airTime = Some (1 / 10), metricsTakeoffFrame = Some 2,
               metricsLandingFrame = Some 3, rotations = Some (1 / 2),
               maxHeight = Some (981 / 80000)\<rparr>"
    using e h i skating_frames
    by (simp add: computeJumpMetrics_def markers_for_def marked_def Let_def skating_timestamps)
  show ?thesis using a skating_analysis c skating_claimed by simp
qed

section \<open>Jump height\<close>

text \<open>
  C9. For every air time \<open>t\<close>, the jump height is \<open>9.81 * t * t / 8\<close> metres when
  \<open>t > 0\<close> and absent when \<open>t \<le> 0\<close>; for \<open>t = 1\<close> it is \<open>1.22625\<close> (exactly, so
  within \<open>1e-9\<close>).
\<close>

theorem calculateJumpHeight_formula:
  "calculateJumpHeight t = (if 0 < t then Some (981 / 100 * t * t / 8) else None)
   \<and> calculateJumpHeight 1 = Some (122625 / 100000)
   \<and> (case calculateJumpHeight 1 of None \<Rightarrow> False
       | Some h \<Rightarrow> \<bar>h - 122625 / 100000\<bar> \<le> 1 / 10 ^ 9)"
  by (simp add: calculateJumpHeight_def Let_def)

end
